theory Spec2Isabelle
  imports Main "HOL-Library.Multiset" "HOL-Library.Word"
begin

section \<open>Errors\<close>

text \<open>
  The commands return Go \<open>error\<close> values. An error is created with \<open>errors.New\<close> (or
  handed back by a library or a collaborator, which is the same to the caller: a value
  with a message), wrapped with \<open>errors.Wrap\<close> of \<open>github.com/pkg/errors\<close>, or joined
  with \<open>errors.Join\<close>. Dereferencing a nil pointer panics; the panic is a value too.
\<close>

datatype error =
    New string
  | Wrap error string
  | Join error error
  | NilPointerDereference

text \<open>The message of an error, the way the two libraries print it.\<close>

fun Error :: "error \<Rightarrow> string" where
  "Error (New msg) = msg"
| "Error (Wrap err msg) = msg @ '': '' @ Error err"
| "Error (Join e1 e2) = Error e1 @ [CHR 0x0A] @ Error e2"
| "Error NilPointerDereference =
     ''runtime error: invalid memory address or nil pointer dereference''"

section \<open>Package list: the versions command\<close>

subsection \<open>Data\<close>

text \<open>
  \<open>client.DatabaseEngine\<close> as the command reads it: \<open>Spec\<close>, \<open>Status\<close>,
  \<open>Status.AvailableVersions\<close> and \<open>Status.AvailableVersions.Engine\<close> are pointers
  (\<open>None\<close> is nil). \<open>Engine\<close> points to a map keyed by version string, of which the
  command only enumerates the keys: the field holds the keys in the order the
  \<open>range\<close> statement yields them.
\<close>

type_synonym EngineType = string

record DatabaseEngine_Spec =
  Type :: string

record DatabaseEngine_AvailableVersions =
  Engine :: "string list option"

record DatabaseEngine_Status =
  AvailableVersions :: "DatabaseEngine_AvailableVersions option"

record DatabaseEngine =
  Spec :: "DatabaseEngine_Spec option"
  Status :: "DatabaseEngine_Status option"

record DatabaseEngineList =
  Items :: "DatabaseEngine list option"

text \<open>
  \<open>VersionsList\<close> is \<open>map[EngineType]goversion.Collection\<close>. The version type \<open>'v\<close>
  is the library's; the command uses \<open>goversion.NewVersion\<close>, \<open>Original\<close> and
  \<open>LessThan\<close> (through \<open>Collection.Less\<close>), which the definitions take as arguments.
\<close>

type_synonym 'v VersionsList = "EngineType \<rightharpoonup> 'v list"

text \<open>Reading \<open>res[engineType]\<close> gives the nil slice when the key is absent.\<close>

definition bucket :: "'v VersionsList \<Rightarrow> EngineType \<Rightarrow> 'v list" where
  "bucket res engineType = (case res engineType of None \<Rightarrow> [] | Some c \<Rightarrow> c)"

subsection \<open>checkIfSkip and parseVersions\<close>

definition checkIfSkip :: "string \<Rightarrow> DatabaseEngine \<Rightarrow> bool" where
  "checkIfSkip config_Type db =
     (case Spec db of
        None \<Rightarrow> True
      | Some spec \<Rightarrow>
          if config_Type \<noteq> [] \<and> Type spec \<noteq> config_Type then True
          else (case Status db of
                  None \<Rightarrow> True
                | Some status \<Rightarrow>
                    (case AvailableVersions status of
                       None \<Rightarrow> True
                     | Some av \<Rightarrow> (case Engine av of None \<Rightarrow> True | Some _ \<Rightarrow> False))))"

text \<open>
  The inner loop of \<open>parseVersions\<close>: every key is parsed and appended to the bucket of
  \<open>engineType\<close>; the first key the parser rejects ends the whole function with that
  error.
\<close>

fun parseEngine ::
  "(string \<Rightarrow> error + 'v) \<Rightarrow> EngineType \<Rightarrow> string list \<Rightarrow> 'v VersionsList
     \<Rightarrow> error + 'v VersionsList" where
  "parseEngine NewVersion engineType [] res = Inr res"
| "parseEngine NewVersion engineType (version # rest) res =
     (case NewVersion version of
        Inl err \<Rightarrow> Inl err
      | Inr ver \<Rightarrow>
          parseEngine NewVersion engineType rest
            (res(engineType \<mapsto> bucket res engineType @ [ver])))"

text \<open>
  The outer loop, with the map \<open>res\<close> built so far. After \<open>checkIfSkip\<close> the code
  dereferences \<open>db.Spec\<close>, \<open>db.Status\<close>, \<open>AvailableVersions\<close> and \<open>Engine\<close>.
\<close>

fun parseVersions_loop ::
  "(string \<Rightarrow> error + 'v) \<Rightarrow> string \<Rightarrow> DatabaseEngine list \<Rightarrow> 'v VersionsList
     \<Rightarrow> error + 'v VersionsList" where
  "parseVersions_loop NewVersion config_Type [] res = Inr res"
| "parseVersions_loop NewVersion config_Type (db # items) res =
     (if checkIfSkip config_Type db then parseVersions_loop NewVersion config_Type items res
      else
        (case Spec db of
           None \<Rightarrow> Inl NilPointerDereference
         | Some spec \<Rightarrow>
        (case Status db of
           None \<Rightarrow> Inl NilPointerDereference
         | Some status \<Rightarrow>
        (case AvailableVersions status of
           None \<Rightarrow> Inl NilPointerDereference
         | Some av \<Rightarrow>
        (case Engine av of
           None \<Rightarrow> Inl NilPointerDereference
         | Some engine \<Rightarrow>
             (let engineType = Type spec;
                  res1 = (if res engineType = None then res(engineType \<mapsto> []) else res)
              in case parseEngine NewVersion engineType engine res1 of
                   Inl err \<Rightarrow> Inl err
                 | Inr res2 \<Rightarrow> parseVersions_loop NewVersion config_Type items res2))))))"

definition parseVersions ::
  "(string \<Rightarrow> error + 'v) \<Rightarrow> string \<Rightarrow> DatabaseEngine list \<Rightarrow> error + 'v VersionsList" where
  "parseVersions NewVersion config_Type items =
     parseVersions_loop NewVersion config_Type items Map.empty"

text \<open>
  \<open>Versions.Run\<close>: \<open>ListDatabaseEngines\<close> is the control-plane client's answer for
  the configured Kubernetes id.
\<close>

definition Run_versions ::
  "(string \<Rightarrow> error + DatabaseEngineList) \<Rightarrow> (string \<Rightarrow> error + 'v) \<Rightarrow> string \<Rightarrow> string
     \<Rightarrow> error + 'v VersionsList" where
  "Run_versions ListDatabaseEngines NewVersion config_KubernetesID config_Type =
     (case ListDatabaseEngines config_KubernetesID of
        Inl err \<Rightarrow> Inl err
      | Inr dbEngines \<Rightarrow>
          (case Items dbEngines of
             None \<Rightarrow> Inr Map.empty
           | Some items \<Rightarrow> parseVersions NewVersion config_Type items))"

subsection \<open>VersionsList.String\<close>

text \<open>
  \<open>strings.Join\<close>: the elements with \<open>sep\<close> between them, and nothing after the last.
\<close>

fun strings_Join :: "string list \<Rightarrow> string \<Rightarrow> string" where
  "strings_Join [] sep = []"
| "strings_Join [x] sep = x"
| "strings_Join (x # y # xs) sep = x @ sep @ strings_Join (y # xs) sep"

text \<open>
  \<open>sort.Sort\<close> and \<open>sort.Reverse\<close> are the standard library's. \<open>sort.Sort\<close>
  rearranges the data in place; on a slice of at most 12 elements it runs the insertion
  loop
  \<^verbatim>\<open>for i := a + 1; i < b; i++ {
      for j := i; j > a && data.Less(j, j-1); j-- { data.Swap(j, j-1) } }\<close>
  which takes the elements in their order and moves each towards the front, by swaps
  with its neighbour, while it is \<open>Less\<close> than the neighbour. \<open>moveDown\<close> is the
  inner loop: the part already sorted is held back to front, so that its head is the
  neighbour of the element that moves. On longer slices the library runs other
  algorithms to the same contract, which asks of \<open>Less\<close> a transitive ordering in
  which being equal (neither element \<open>Less\<close> than the other) is transitive too, and
  promises nothing on the order of equal elements. \<open>sort.Reverse\<close> swaps the arguments
  of \<open>Less\<close>.
\<close>

fun moveDown :: "('a \<Rightarrow> 'a \<Rightarrow> bool) \<Rightarrow> 'a list \<Rightarrow> 'a \<Rightarrow> 'a list" where
  "moveDown Less [] x = [x]"
| "moveDown Less (y # ys) x =
     (if Less x y then y # moveDown Less ys x else x # y # ys)"

definition sort_Sort :: "('a \<Rightarrow> 'a \<Rightarrow> bool) \<Rightarrow> 'a list \<Rightarrow> 'a list" where
  "sort_Sort Less data = rev (foldl (moveDown Less) [] data)"

definition Reverse :: "('a \<Rightarrow> 'a \<Rightarrow> bool) \<Rightarrow> 'a \<Rightarrow> 'a \<Rightarrow> bool" where
  "Reverse Less a b = Less b a"

text \<open>The loop \<open>for _, ver := range versions { out = append(out, ver.Original()) }\<close>.\<close>

fun appendOriginals :: "('v \<Rightarrow> string) \<Rightarrow> 'v list \<Rightarrow> string list \<Rightarrow> string list" where
  "appendOriginals Original [] out = out"
| "appendOriginals Original (ver # versions) out =
     appendOriginals Original versions (out @ [Original ver])"

text \<open>
  The loop over the map. Go enumerates a map in an order of its own choosing: \<open>keys\<close>
  is the order of this enumeration (an entry that is no key of the map is not visited).
  \<open>versions\<close> is the slice stored under \<open>engine\<close>: the loop variable and the map
  entry share one backing array, so what \<open>sort.Sort\<close> does in place to \<open>versions\<close>
  is done to the bucket of the catalog. The loop therefore returns the catalog as it
  leaves it, beside the lines.
\<close>

fun String_loop ::
  "('v \<Rightarrow> string) \<Rightarrow> ('v \<Rightarrow> 'v \<Rightarrow> bool) \<Rightarrow> EngineType list \<Rightarrow> 'v VersionsList \<Rightarrow> string list
     \<Rightarrow> string list \<times> 'v VersionsList" where
  "String_loop Original LessThan [] v out = (out, v)"
| "String_loop Original LessThan (engine # keys) v out =
     (case v engine of
        None \<Rightarrow> String_loop Original LessThan keys v out
      | Some versions \<Rightarrow>
          (let out1 = out @ [''-----'', engine, ''-----''];
               versions1 = sort_Sort (Reverse LessThan) versions;
               v1 = v(engine \<mapsto> versions1);
               out2 = appendOriginals Original versions1 out1
           in String_loop Original LessThan keys v1 out2))"

definition String_VersionsList ::
  "('v \<Rightarrow> string) \<Rightarrow> ('v \<Rightarrow> 'v \<Rightarrow> bool) \<Rightarrow> EngineType list \<Rightarrow> 'v VersionsList
     \<Rightarrow> string \<times> 'v VersionsList" where
  "String_VersionsList Original LessThan keys v =
     (case String_loop Original LessThan keys v [] of
        (out, v1) \<Rightarrow> (strings_Join out [CHR 0x0A], v1))"

text \<open>
  The version strings of a record, for stating what the loop does: the keys under
  \<open>Status.AvailableVersions.Engine\<close>, and none when a pointer on the way is nil.
\<close>

definition engineVersions :: "DatabaseEngine \<Rightarrow> string list" where
  "engineVersions db =
     (case Status db of
        None \<Rightarrow> []
      | Some status \<Rightarrow>
          (case AvailableVersions status of
             None \<Rightarrow> []
           | Some av \<Rightarrow> (case Engine av of None \<Rightarrow> [] | Some engine \<Rightarrow> engine)))"

text \<open>A record with every pointer set: its type and its version strings.\<close>

definition engineRecord :: "string \<Rightarrow> string list \<Rightarrow> DatabaseEngine" where
  "engineRecord engineType versions =
     \<lparr>Spec = Some \<lparr>Type = engineType\<rparr>,
      Status = Some \<lparr>AvailableVersions = Some \<lparr>Engine = Some versions\<rparr>\<rparr>\<rparr>"

subsection \<open>A reference version library\<close>

text \<open>
  Modelled from the spec: \<open>github.com/hashicorp/go-version\<close> is a library and not
  among the sources. The spec gives version strings the syntax \<open>MAJOR.MINOR.PATCH\<close>
  with optional pre-release and build parts, accepted only when fully parseable, and
  orders them by the numbers first. The reference library covers the numeric core:
  three decimal numbers separated by dots, ordered by major, then minor, then patch.
  It serves to run the definitions above on concrete inputs.
\<close>

record Version_ref =
  major :: nat
  minor :: nat
  patch :: nat
  original :: string

fun splitOn :: "char \<Rightarrow> string \<Rightarrow> string \<Rightarrow> string list" where
  "splitOn sep [] cur = [cur]"
| "splitOn sep (c # cs) cur =
     (if c = sep then cur # splitOn sep cs [] else splitOn sep cs (cur @ [c]))"

definition digitValue :: "char \<Rightarrow> nat option" where
  "digitValue =
     map_of [(CHR ''0'', 0), (CHR ''1'', 1), (CHR ''2'', 2), (CHR ''3'', 3), (CHR ''4'', 4),
             (CHR ''5'', 5), (CHR ''6'', 6), (CHR ''7'', 7), (CHR ''8'', 8), (CHR ''9'', 9)]"

fun parseDigits :: "string \<Rightarrow> nat \<Rightarrow> nat option" where
  "parseDigits [] acc = Some acc"
| "parseDigits (c # cs) acc =
     (case digitValue c of None \<Rightarrow> None | Some d \<Rightarrow> parseDigits cs (10 * acc + d))"

definition parseNumber :: "string \<Rightarrow> nat option" where
  "parseNumber s = (if s = [] then None else parseDigits s 0)"

definition NewVersion_ref :: "string \<Rightarrow> error + Version_ref" where
  "NewVersion_ref s =
     (case map parseNumber (splitOn (CHR ''.'') s []) of
        [Some a, Some b, Some c] \<Rightarrow>
          Inr \<lparr>major = a, minor = b, patch = c, original = s\<rparr>
      | _ \<Rightarrow> Inl (New (''Malformed version: '' @ s)))"

definition LessThan_ref :: "Version_ref \<Rightarrow> Version_ref \<Rightarrow> bool" where
  "LessThan_ref a b \<longleftrightarrow>
     major a < major b
     \<or> (major a = major b \<and> (minor a < minor b \<or> (minor a = minor b \<and> patch a < patch b)))"

section \<open>Log lines and formatted text\<close>

text \<open>
  A formatted text is kept as the format string and its arguments, the way the code
  hands them to \<open>fmt.Sprintf\<close> and to the logger. A run of a command returns, beside
  its result, the calls it issued to the logger, the prompt and the clients, in order.
\<close>

datatype formatted = Sprintf string "string list"

datatype logline = Info string | Infof string "string list" | Debug string

section \<open>Package delete: the mysql command\<close>

record MySQLConfig_delete =
  delete_Name :: string
  delete_KubernetesID :: string
  delete_Everest_Endpoint :: string
  delete_Force :: bool

datatype delete_call =
    delete_Log logline
  | Call_AskOne formatted
  | Call_DeleteDBCluster string string

text \<open>
  The collaborators: \<open>survey.AskOne\<close> takes the message and the value \<open>prompt\<close> holds
  and returns its error and the value it leaves in \<open>prompt\<close>;
  \<open>everestClient.DeleteDBCluster\<close> takes the Kubernetes id and the name and returns
  its error (the response is dropped by the code).
\<close>

record delete_deps =
  survey_AskOne :: "formatted \<Rightarrow> bool \<Rightarrow> error option \<times> bool"
  everestClient_DeleteDBCluster :: "string \<Rightarrow> string \<Rightarrow> error option"

text \<open>The part of \<open>Run\<close> after the confirmation, with the calls issued before it.\<close>

definition Run_delete_request ::
  "delete_deps \<Rightarrow> MySQLConfig_delete \<Rightarrow> delete_call list \<Rightarrow> error option \<times> delete_call list" where
  "Run_delete_request deps config calls =
     (let calls1 = calls @
            [delete_Log (Infof ''Deleting %q cluster'' [delete_Name config]),
             Call_DeleteDBCluster (delete_KubernetesID config) (delete_Name config)]
      in case everestClient_DeleteDBCluster deps (delete_KubernetesID config) (delete_Name config) of
           Some err \<Rightarrow> (Some err, calls1)
         | None \<Rightarrow>
             (None, calls1 @
                [delete_Log (Infof ''Cluster %q successfully deleted'' [delete_Name config])]))"

definition Run_delete ::
  "delete_deps \<Rightarrow> MySQLConfig_delete \<Rightarrow> error option \<times> delete_call list" where
  "Run_delete deps config =
     (if \<not> delete_Force config then
        (let confirm = Sprintf ''Are you sure you want to remove the %q database cluster?''
                         [delete_Name config]
         in case survey_AskOne deps confirm False of
              (Some err, _) \<Rightarrow> (Some err, [Call_AskOne confirm])
            | (None, prompt) \<Rightarrow>
                if \<not> prompt then (None, [Call_AskOne confirm, delete_Log (Info ''Exiting'')])
                else Run_delete_request deps config [Call_AskOne confirm])
      else Run_delete_request deps config [])"

section \<open>Package provision: the mysql command\<close>

subsection \<open>Data\<close>

record MySQLConfig_provision =
  Name :: string
  KubernetesID :: string
  Everest_Endpoint :: string
  DB_Version :: string
  Nodes :: int
  CPU :: string
  Memory :: string
  Disk :: string
  ExternalAccess :: bool

text \<open>
  \<open>everestv1alpha.DatabaseCluster\<close>, with the fields the composite literal of
  \<open>prepareBody\<close> sets (and the namespace of \<open>metav1.ObjectMeta\<close>, which the
  password command sets; a field a literal leaves out has its zero value). \<open>'q\<close> is
  \<open>resource.Quantity\<close>. \<open>Replicas\<close> of the engine is an \<open>int32\<close>, \<open>Replicas\<close> of the
  proxy a pointer to one.
\<close>

datatype ProxyType = ProxyTypeHAProxy

datatype ExposeType = ExposeTypeInternal | ExposeTypeExternal

text \<open>
  Modelled from the spec: the constant \<open>DatabaseEnginePXC\<close> is declared in the operator's
  API package, not in the sources; the spec names the engine type \<open>pxc\<close>.
\<close>

definition DatabaseEnginePXC :: EngineType where
  "DatabaseEnginePXC = ''pxc''"

record TypeMeta =
  APIVersion :: string
  Kind :: string

record ObjectMeta =
  ObjectMeta_Name :: string
  ObjectMeta_Namespace :: string

record 'q Storage =
  Storage_Size :: 'q

record 'q Resources =
  Resources_CPU :: 'q
  Resources_Memory :: 'q

record 'q Engine =
  Engine_Type :: EngineType
  Engine_Replicas :: "32 word"
  Engine_Version :: string
  Engine_Storage :: "'q Storage"
  Engine_Resources :: "'q Resources"

record Expose =
  Expose_Type :: ExposeType

record Proxy =
  Proxy_Type :: ProxyType
  Proxy_Replicas :: "32 word option"
  Proxy_Expose :: Expose

record 'q DatabaseClusterSpec =
  Spec_Engine :: "'q Engine"
  Spec_Proxy :: Proxy

record 'q DatabaseCluster =
  DatabaseCluster_TypeMeta :: TypeMeta
  DatabaseCluster_ObjectMeta :: ObjectMeta
  DatabaseCluster_Spec :: "'q DatabaseClusterSpec"

text \<open>
  Modelled from the spec: \<open>client.DatabaseCluster\<close>, the wire type of the control-plane
  client, is declared in the backend's client package, not in the sources. The record
  has the fields of the wire payload that the spec names: the replica counts of the
  engine and of the proxy, the version, the exposure, the storage size, CPU and memory.
\<close>

record client_DatabaseCluster =
  wire_engine_replicas :: "32 word"
  wire_proxy_replicas :: "32 word"
  wire_version :: string
  wire_exposure :: string
  wire_storage_size :: string
  wire_cpu :: string
  wire_memory :: string

datatype ('b) provision_call =
    provision_Log logline
  | provision_Debug_JSON 'b
  | Call_CreateDBCluster string client_DatabaseCluster

text \<open>
  The collaborators: \<open>resource.ParseQuantity\<close>; \<open>json.Marshal\<close> on the structured
  payload, giving the bytes \<open>'b\<close>; \<open>json.Unmarshal\<close> of these bytes into the wire
  type; \<open>everestClient.CreateDBCluster\<close>, of which the code keeps the error only.
\<close>

record ('q, 'b) provision_deps =
  resource_ParseQuantity :: "string \<Rightarrow> error + 'q"
  json_Marshal :: "'q DatabaseCluster \<Rightarrow> error + 'b"
  json_Unmarshal :: "'b \<Rightarrow> error + client_DatabaseCluster"
  everestClient_CreateDBCluster :: "string \<Rightarrow> client_DatabaseCluster \<Rightarrow> error option"

subsection \<open>convertPayload, prepareBody and Run\<close>

definition convertPayload ::
  "('q, 'b) provision_deps \<Rightarrow> 'q DatabaseCluster
     \<Rightarrow> (error + client_DatabaseCluster) \<times> 'b provision_call list" where
  "convertPayload deps payload =
     (case json_Marshal deps payload of
        Inl err \<Rightarrow> (Inl (Wrap err ''cannot marshal payload to json''), [])
      | Inr bodyJSON \<Rightarrow>
          (case json_Unmarshal deps bodyJSON of
             Inl err \<Rightarrow>
               (Inl (Wrap err ''cannot unmarshal payload back to json''),
                [provision_Debug_JSON bodyJSON])
           | Inr body \<Rightarrow> (Inr body, [provision_Debug_JSON bodyJSON])))"

text \<open>
  \<open>int32(m.config.Nodes)\<close> keeps the low 32 bits of the \<open>int\<close>.
\<close>

definition int32 :: "int \<Rightarrow> 32 word" where
  "int32 n = word_of_int n"

definition prepareBody ::
  "('q, 'b) provision_deps \<Rightarrow> MySQLConfig_provision
     \<Rightarrow> (error + client_DatabaseCluster) \<times> 'b provision_call list" where
  "prepareBody deps config =
     (case resource_ParseQuantity deps (CPU config) of
        Inl err \<Rightarrow> (Inl (Wrap err ''cannot parse cpu''), [])
      | Inr cpu \<Rightarrow>
     (case resource_ParseQuantity deps (Memory config) of
        Inl err \<Rightarrow> (Inl (Wrap err ''cannot parse memory''), [])
      | Inr memory \<Rightarrow>
     (case resource_ParseQuantity deps (Disk config) of
        Inl err \<Rightarrow> (Inl (Wrap err ''cannot parse disk storage''), [])
      | Inr disk \<Rightarrow>
          (let replicas = int32 (Nodes config);
               version = (if DB_Version config = ''latest'' then [] else DB_Version config);
               payload =
                 \<lparr>DatabaseCluster_TypeMeta =
                    \<lparr>APIVersion = ''everest.percona.com/v1alpha1'', Kind = ''DatabaseCluster''\<rparr>,
                  DatabaseCluster_ObjectMeta =
                    \<lparr>ObjectMeta_Name = Name config, ObjectMeta_Namespace = []\<rparr>,
                  DatabaseCluster_Spec =
                    \<lparr>Spec_Engine =
                       \<lparr>Engine_Type = DatabaseEnginePXC,
                        Engine_Replicas = replicas,
                        Engine_Version = version,
                        Engine_Storage = \<lparr>Storage_Size = disk\<rparr>,
                        Engine_Resources = \<lparr>Resources_CPU = cpu, Resources_Memory = memory\<rparr>\<rparr>,
                     Spec_Proxy =
                       \<lparr>Proxy_Type = ProxyTypeHAProxy,
                        Proxy_Replicas = Some replicas,
                        Proxy_Expose = \<lparr>Expose_Type = ExposeTypeInternal\<rparr>\<rparr>\<rparr>\<rparr>
           in if ExternalAccess config then
                (case convertPayload deps
                        (payload\<lparr>DatabaseCluster_Spec :=
                           (DatabaseCluster_Spec payload)\<lparr>Spec_Proxy :=
                             (Spec_Proxy (DatabaseCluster_Spec payload))\<lparr>Proxy_Expose :=
                               \<lparr>Expose_Type = ExposeTypeExternal\<rparr>\<rparr>\<rparr>\<rparr>) of
                   (r, calls) \<Rightarrow>
                     (r, provision_Log (Debug ''Enabling external access'') # calls))
              else convertPayload deps payload))))"

definition Run_provision ::
  "('q, 'b) provision_deps \<Rightarrow> MySQLConfig_provision \<Rightarrow> error option \<times> 'b provision_call list" where
  "Run_provision deps config =
     (case prepareBody deps config of
        (Inl err, calls) \<Rightarrow>
          (Some err, provision_Log (Info ''Preparing cluster config'') # calls)
      | (Inr body, calls) \<Rightarrow>
          (let calls1 = provision_Log (Info ''Preparing cluster config'') # calls @
                 [provision_Log (Infof ''Creating %q database cluster'' [Name config]),
                  Call_CreateDBCluster (KubernetesID config) body]
           in case everestClient_CreateDBCluster deps (KubernetesID config) body of
                Some err \<Rightarrow> (Some err, calls1)
              | None \<Rightarrow>
                  (None, calls1 @
                     [provision_Log
                        (Infof ''Database cluster %q has been scheduled to Kubernetes''
                           [Name config])])))"

subsection \<open>The translation contract and a reference codec\<close>

text \<open>
  Modelled from the spec: the two schemas and \<open>encoding/json\<close> are not among the
  sources. The spec asks of the translation that the fields present in both schemas
  survive it (a field the structured object lacks takes its zero value): the version,
  the replica counts of the engine and of the proxy, and the exposure, \<open>internal\<close> or
  \<open>external\<close>.
\<close>

definition exposureText :: "ExposeType \<Rightarrow> string" where
  "exposureText t = (case t of ExposeTypeInternal \<Rightarrow> ''internal'' | ExposeTypeExternal \<Rightarrow> ''external'')"

definition translationKeeps :: "('q, 'b) provision_deps \<Rightarrow> bool" where
  "translationKeeps deps \<longleftrightarrow>
     (\<forall>payload bodyJSON body.
        json_Marshal deps payload = Inr bodyJSON \<longrightarrow>
        json_Unmarshal deps bodyJSON = Inr body \<longrightarrow>
          wire_version body = Engine_Version (Spec_Engine (DatabaseCluster_Spec payload))
        \<and> wire_engine_replicas body = Engine_Replicas (Spec_Engine (DatabaseCluster_Spec payload))
        \<and> wire_proxy_replicas body =
            (case Proxy_Replicas (Spec_Proxy (DatabaseCluster_Spec payload)) of
               None \<Rightarrow> 0 | Some r \<Rightarrow> r)
        \<and> wire_exposure body =
            exposureText (Expose_Type (Proxy_Expose (Spec_Proxy (DatabaseCluster_Spec payload)))))"

text \<open>
  Modelled from the spec: a reference quantity parser for the grammar "integer or
  integer and suffix"; the quantity it returns is the text.
\<close>

definition quantitySuffixes :: "string list" where
  "quantitySuffixes =
     [[], ''Ki'', ''Mi'', ''Gi'', ''Ti'', ''Pi'', ''Ei'', ''m'', ''k'', ''M'', ''G'', ''T'', ''P'', ''E'']"

definition ParseQuantity_ref :: "string \<Rightarrow> error + string" where
  "ParseQuantity_ref s =
     (if takeWhile (\<lambda>c. digitValue c \<noteq> None) s \<noteq> []
         \<and> dropWhile (\<lambda>c. digitValue c \<noteq> None) s \<in> set quantitySuffixes
      then Inr s
      else Inl (New ''quantities must match the quantity grammar''))"

text \<open>
  Modelled from the spec: a reference codec. The intermediate representation is the
  JSON document as a tree; marshalling writes every field of the structured object
  under its key, unmarshalling reads the fields of the wire schema and takes the zero
  value for one that is absent.
\<close>

datatype json = JString string | JNumber int | JObject "(string \<times> json) list"

fun member :: "string \<Rightarrow> json option \<Rightarrow> json option" where
  "member k (Some (JObject kvs)) = map_of kvs k"
| "member k _ = None"

fun stringOr :: "json option \<Rightarrow> string" where
  "stringOr (Some (JString s)) = s"
| "stringOr _ = []"

fun int32Or :: "json option \<Rightarrow> 32 word" where
  "int32Or (Some (JNumber n)) = word_of_int n"
| "int32Or _ = 0"

definition Marshal_ref :: "string DatabaseCluster \<Rightarrow> error + json" where
  "Marshal_ref payload =
     (let spec = DatabaseCluster_Spec payload; engine = Spec_Engine spec; proxy = Spec_Proxy spec
      in Inr (JObject
        [(''apiVersion'', JString (APIVersion (DatabaseCluster_TypeMeta payload))),
         (''kind'', JString (Kind (DatabaseCluster_TypeMeta payload))),
         (''metadata'', JObject
            [(''name'', JString (ObjectMeta_Name (DatabaseCluster_ObjectMeta payload)))]),
         (''spec'', JObject
            [(''engine'', JObject
                [(''type'', JString (Engine_Type engine)),
                 (''version'', JString (Engine_Version engine)),
                 (''replicas'', JNumber (sint (Engine_Replicas engine))),
                 (''storage'', JObject [(''size'', JString (Storage_Size (Engine_Storage engine)))]),
                 (''resources'', JObject
                    [(''cpu'', JString (Resources_CPU (Engine_Resources engine))),
                     (''memory'', JString (Resources_Memory (Engine_Resources engine)))])]),
             (''proxy'', JObject
                ([(''type'', JString ''haproxy'')] @
                 (case Proxy_Replicas proxy of
                    None \<Rightarrow> [] | Some r \<Rightarrow> [(''replicas'', JNumber (sint r))]) @
                 [(''expose'', JObject
                     [(''type'', JString (exposureText (Expose_Type (Proxy_Expose proxy))))])]))])]))"

definition Unmarshal_ref :: "json \<Rightarrow> error + client_DatabaseCluster" where
  "Unmarshal_ref bodyJSON =
     (case bodyJSON of
        JObject _ \<Rightarrow>
          (let engine = member ''engine'' (member ''spec'' (Some bodyJSON));
               proxy = member ''proxy'' (member ''spec'' (Some bodyJSON))
           in Inr \<lparr>wire_engine_replicas = int32Or (member ''replicas'' engine),
                   wire_proxy_replicas = int32Or (member ''replicas'' proxy),
                   wire_version = stringOr (member ''version'' engine),
                   wire_exposure = stringOr (member ''type'' (member ''expose'' proxy)),
                   wire_storage_size = stringOr (member ''size'' (member ''storage'' engine)),
                   wire_cpu = stringOr (member ''cpu'' (member ''resources'' engine)),
                   wire_memory = stringOr (member ''memory'' (member ''resources'' engine))\<rparr>)
      | _ \<Rightarrow> Inl (New ''json: cannot unmarshal into Go value of type client.DatabaseCluster''))"

text \<open>The reference collaborators, with a control plane that accepts every request.\<close>

definition deps_ref :: "(string, json) provision_deps" where
  "deps_ref =
     \<lparr>resource_ParseQuantity = ParseQuantity_ref,
      json_Marshal = Marshal_ref,
      json_Unmarshal = Unmarshal_ref,
      everestClient_CreateDBCluster = (\<lambda>kubernetesID body. None)\<rparr>"

section \<open>Package password: the reset command\<close>

record ResetConfig =
  KubeconfigPath :: string
  Namespace :: string

record ResetResponse =
  Password :: string

text \<open>
  \<open>corev1.Namespace\<close>, of which the command reads the UID, and \<open>corev1.Secret\<close> with
  the fields the command sets. Byte slices are strings.
\<close>

record corev1_Namespace =
  UID :: string

datatype SecretType = SecretTypeOpaque

record Secret =
  Secret_TypeMeta :: TypeMeta
  Secret_ObjectMeta :: ObjectMeta
  Secret_Type :: SecretType
  Secret_Data :: "string \<rightharpoonup> string"

definition passwordSecretName :: string where
  "passwordSecretName = ''everest-password''"

datatype hashConstructor = sha256_New

datatype reset_call =
    Call_GetNamespace string
  | Call_SetSecret Secret

text \<open>
  The collaborators: the cluster-access client's \<open>GetNamespace\<close> and \<open>SetSecret\<close>,
  \<open>uniuri.NewLen\<close> (the string this call draws) and \<open>pbkdf2.Key\<close> with its arguments
  password, salt, iterations, key length and hash.
\<close>

record reset_deps =
  kubeClient_GetNamespace :: "string \<Rightarrow> error + corev1_Namespace"
  uniuri_NewLen :: "nat \<Rightarrow> string"
  pbkdf2_Key :: "string \<Rightarrow> string \<Rightarrow> nat \<Rightarrow> nat \<Rightarrow> hashConstructor \<Rightarrow> string"
  kubeClient_SetSecret :: "Secret \<Rightarrow> error option"

definition Run_reset ::
  "reset_deps \<Rightarrow> ResetConfig \<Rightarrow> (error + ResetResponse) \<times> reset_call list" where
  "Run_reset deps config =
     (case kubeClient_GetNamespace deps (Namespace config) of
        Inl err \<Rightarrow>
          (Inl (Join err (New ''could not get namespace from Kubernetes'')),
           [Call_GetNamespace (Namespace config)])
      | Inr ns \<Rightarrow>
          (let newPassword = uniuri_NewLen deps 128;
               salt = UID ns;
               hash = pbkdf2_Key deps newPassword salt 4096 32 sha256_New;
               secret =
                 \<lparr>Secret_TypeMeta = \<lparr>APIVersion = ''v1'', Kind = ''Secret''\<rparr>,
                  Secret_ObjectMeta =
                    \<lparr>ObjectMeta_Name = passwordSecretName,
                     ObjectMeta_Namespace = Namespace config\<rparr>,
                  Secret_Type = SecretTypeOpaque,
                  Secret_Data = [''password'' \<mapsto> hash]\<rparr>;
               calls = [Call_GetNamespace (Namespace config), Call_SetSecret secret]
           in case kubeClient_SetSecret deps secret of
                Some err \<Rightarrow>
                  (Inl (Join err (New ''could not update password in Kubernetes'')), calls)
              | None \<Rightarrow> (Inr \<lparr>Password = newPassword\<rparr>, calls)))"

section \<open>Example inputs\<close>

text \<open>
  The configuration of the spec's end-to-end scenario: CPU 2, memory 4Gi, disk 100Gi,
  three nodes, version \<open>latest\<close>, no external access.
\<close>

definition config_example :: MySQLConfig_provision where
  "config_example =
     \<lparr>Name = ''db1'', KubernetesID = ''k8s-1'', Everest_Endpoint = ''http://127.0.0.1:8080'',
      DB_Version = ''latest'', Nodes = 3, CPU = ''2'', Memory = ''4Gi'', Disk = ''100Gi'',
      ExternalAccess = False\<rparr>"

text \<open>
  The catalog of the spec's ordering example: one engine type with the versions 1.0.0,
  2.1.0 and 1.9.9, in this order.
\<close>

definition catalog_example :: "Version_ref VersionsList" where
  "catalog_example =
     [''pxc'' \<mapsto>
        [\<lparr>major = 1, minor = 0, patch = 0, original = ''1.0.0''\<rparr>,
         \<lparr>major = 2, minor = 1, patch = 0, original = ''2.1.0''\<rparr>,
         \<lparr>major = 1, minor = 9, patch = 9, original = ''1.9.9''\<rparr>]]"

section \<open>The deletion gate\<close>

text \<open>
  C5. When \<open>Force\<close> is false and the operator answers the confirmation prompt with no
  (the prompt returns no error and leaves \<open>false\<close>), \<open>Run\<close> of the delete command
  returns nil: the prompt and the log line \<open>Exiting\<close> are all it issues, and no delete
  request goes to the control-plane client.
\<close>

theorem Run_delete_declined:
  assumes "\<not> delete_Force config"
    and "survey_AskOne deps
           (Sprintf ''Are you sure you want to remove the %q database cluster?''
              [delete_Name config]) False = (None, False)"
  shows "Run_delete deps config =
           (None,
            [Call_AskOne (Sprintf ''Are you sure you want to remove the %q database cluster?''
                            [delete_Name config]),
             delete_Log (Info ''Exiting'')])
         \<and> (\<forall>kubernetesID name.
               Call_DeleteDBCluster kubernetesID name \<notin> set (snd (Run_delete deps config)))"
  using assms by (simp add: Run_delete_def)

theorem Run_delete_declined_witness:
  "Run_delete
     \<lparr>survey_AskOne = (\<lambda>confirm prompt. (None, False)),
      everestClient_DeleteDBCluster = (\<lambda>kubernetesID name. None)\<rparr>
     \<lparr>delete_Name = ''db1'', delete_KubernetesID = ''k8s-1'',
      delete_Everest_Endpoint = ''http://127.0.0.1:8080'', delete_Force = False\<rparr>
   = (None,
      [Call_AskOne (Sprintf ''Are you sure you want to remove the %q database cluster?'' [''db1'']),
       delete_Log (Info ''Exiting'')])"
  using Run_delete_declined
    [of "\<lparr>delete_Name = ''db1'', delete_KubernetesID = ''k8s-1'',
          delete_Everest_Endpoint = ''http://127.0.0.1:8080'', delete_Force = False\<rparr>"
        "\<lparr>survey_AskOne = (\<lambda>confirm prompt. (None, False)),
          everestClient_DeleteDBCluster = (\<lambda>kubernetesID name. None)\<rparr>"]
  by simp

section \<open>The provisioning payload builder\<close>

lemma prepareBody_parse_failure:
  assumes "isl (resource_ParseQuantity deps (CPU config))
         \<or> isl (resource_ParseQuantity deps (Memory config))
         \<or> isl (resource_ParseQuantity deps (Disk config))"
  shows "\<exists>field err.
           prepareBody deps config = (Inl (Wrap err (''cannot parse '' @ field)), [])
         \<and> ((field = ''cpu'' \<and> resource_ParseQuantity deps (CPU config) = Inl err)
            \<or> (field = ''memory'' \<and> resource_ParseQuantity deps (Memory config) = Inl err)
            \<or> (field = ''disk storage'' \<and> resource_ParseQuantity deps (Disk config) = Inl err))"
proof (cases "resource_ParseQuantity deps (CPU config)")
  case (Inl err)
  then show ?thesis by (simp add: prepareBody_def)
next
  case cpu: (Inr cpu)
  show ?thesis
  proof (cases "resource_ParseQuantity deps (Memory config)")
    case (Inl err)
    with cpu show ?thesis by (simp add: prepareBody_def)
  next
    case memory: (Inr memory)
    with cpu assms obtain err where "resource_ParseQuantity deps (Disk config) = Inl err"
      by (cases "resource_ParseQuantity deps (Disk config)") auto
    with cpu memory show ?thesis by (simp add: prepareBody_def)
  qed
qed

text \<open>
  C1. When the CPU, the memory or the disk string of the configuration fails to parse,
  \<open>Run\<close> of the provision command returns an error that names the field (the first of
  the three, in this order, that fails) and wraps the parser's error, whose message it
  carries after the field; the only call it issues is its first log line, so no create
  call reaches the control-plane client.
\<close>

theorem Run_provision_parse_failure:
  assumes "isl (resource_ParseQuantity deps (CPU config))
         \<or> isl (resource_ParseQuantity deps (Memory config))
         \<or> isl (resource_ParseQuantity deps (Disk config))"
  shows "\<exists>field err.
           fst (Run_provision deps config) = Some (Wrap err (''cannot parse '' @ field))
         \<and> ((field = ''cpu'' \<and> resource_ParseQuantity deps (CPU config) = Inl err)
            \<or> (field = ''memory'' \<and> resource_ParseQuantity deps (Memory config) = Inl err)
            \<or> (field = ''disk storage'' \<and> resource_ParseQuantity deps (Disk config) = Inl err))
         \<and> Error (Wrap err (''cannot parse '' @ field)) = ''cannot parse '' @ field @ '': '' @ Error err
         \<and> snd (Run_provision deps config) = [provision_Log (Info ''Preparing cluster config'')]
         \<and> (\<forall>kubernetesID body.
               Call_CreateDBCluster kubernetesID body \<notin> set (snd (Run_provision deps config)))"
proof -
  from prepareBody_parse_failure [OF assms] obtain field err where
    body: "prepareBody deps config = (Inl (Wrap err (''cannot parse '' @ field)), [])"
    and which: "(field = ''cpu'' \<and> resource_ParseQuantity deps (CPU config) = Inl err)
            \<or> (field = ''memory'' \<and> resource_ParseQuantity deps (Memory config) = Inl err)
            \<or> (field = ''disk storage'' \<and> resource_ParseQuantity deps (Disk config) = Inl err)"
    by blast
  from body have run: "Run_provision deps config =
      (Some (Wrap err (''cannot parse '' @ field)), [provision_Log (Info ''Preparing cluster config'')])"
    by (simp add: Run_provision_def)
  show ?thesis
    apply (rule exI [of _ field], rule exI [of _ err])
    using which by (simp add: run)
qed

lemma ParseQuantity_ref_4GB: "ParseQuantity_ref ''4GB'' = Inl (New ''quantities must match the quantity grammar'')"
  by (simp add: ParseQuantity_ref_def digitValue_def quantitySuffixes_def)

lemma ParseQuantity_ref_2: "ParseQuantity_ref ''2'' = Inr ''2''"
  by (simp add: ParseQuantity_ref_def digitValue_def quantitySuffixes_def)

lemma ParseQuantity_ref_4Gi: "ParseQuantity_ref ''4Gi'' = Inr ''4Gi''"
  by (simp add: ParseQuantity_ref_def digitValue_def quantitySuffixes_def)

lemma ParseQuantity_ref_100Gi: "ParseQuantity_ref ''100Gi'' = Inr ''100Gi''"
  by (simp add: ParseQuantity_ref_def digitValue_def quantitySuffixes_def)

theorem Run_provision_parse_failure_witness:
  "isl (resource_ParseQuantity deps_ref (Memory (config_example\<lparr>Memory := ''4GB''\<rparr>)))
   \<and> (\<exists>field err.
        fst (Run_provision deps_ref (config_example\<lparr>Memory := ''4GB''\<rparr>))
          = Some (Wrap err (''cannot parse '' @ field))
      \<and> field = ''memory'' \<and> Error err = ''quantities must match the quantity grammar'')
   \<and> snd (Run_provision deps_ref (config_example\<lparr>Memory := ''4GB''\<rparr>))
       = [provision_Log (Info ''Preparing cluster config'')]"
  using Run_provision_parse_failure [of deps_ref "config_example\<lparr>Memory := ''4GB''\<rparr>"]
  by (auto simp: deps_ref_def config_example_def ParseQuantity_ref_4GB ParseQuantity_ref_2
      ParseQuantity_ref_100Gi)

lemma convertPayload_success:
  assumes "convertPayload deps payload = (Inr body, calls)"
  shows "\<exists>bodyJSON. json_Marshal deps payload = Inr bodyJSON
           \<and> json_Unmarshal deps bodyJSON = Inr body \<and> calls = [provision_Debug_JSON bodyJSON]"
  using assms by (auto simp: convertPayload_def split: sum.splits)

lemma prepareBody_success:
  assumes "prepareBody deps config = (Inr body, calls)"
  shows "\<exists>payload bodyJSON.
           json_Marshal deps payload = Inr bodyJSON
         \<and> json_Unmarshal deps bodyJSON = Inr body
         \<and> Engine_Version (Spec_Engine (DatabaseCluster_Spec payload))
             = (if DB_Version config = ''latest'' then [] else DB_Version config)
         \<and> Engine_Replicas (Spec_Engine (DatabaseCluster_Spec payload)) = int32 (Nodes config)
         \<and> Proxy_Replicas (Spec_Proxy (DatabaseCluster_Spec payload)) = Some (int32 (Nodes config))
         \<and> Expose_Type (Proxy_Expose (Spec_Proxy (DatabaseCluster_Spec payload)))
             = (if ExternalAccess config then ExposeTypeExternal else ExposeTypeInternal)"
proof -
  from assms obtain payload calls1 where
    conv: "convertPayload deps payload = (Inr body, calls1)"
    and ver: "Engine_Version (Spec_Engine (DatabaseCluster_Spec payload))
             = (if DB_Version config = ''latest'' then [] else DB_Version config)"
    and er: "Engine_Replicas (Spec_Engine (DatabaseCluster_Spec payload)) = int32 (Nodes config)"
    and pr: "Proxy_Replicas (Spec_Proxy (DatabaseCluster_Spec payload)) = Some (int32 (Nodes config))"
    and ex: "Expose_Type (Proxy_Expose (Spec_Proxy (DatabaseCluster_Spec payload)))
             = (if ExternalAccess config then ExposeTypeExternal else ExposeTypeInternal)"
    unfolding prepareBody_def Let_def
    by (simp split: sum.splits if_splits prod.splits)
  from convertPayload_success [OF conv] ver er pr ex show ?thesis by blast
qed

lemma convertPayload_total:
  assumes "\<forall>payload. \<exists>bodyJSON body.
             json_Marshal deps payload = Inr bodyJSON \<and> json_Unmarshal deps bodyJSON = Inr body"
  shows "\<exists>body calls. convertPayload deps payload = (Inr body, calls)"
proof -
  from assms obtain bodyJSON body where
    "json_Marshal deps payload = Inr bodyJSON" "json_Unmarshal deps bodyJSON = Inr body"
    by blast
  then show ?thesis by (simp add: convertPayload_def)
qed

lemma prepareBody_total:
  assumes cpu: "\<not> isl (resource_ParseQuantity deps (CPU config))"
    and memory: "\<not> isl (resource_ParseQuantity deps (Memory config))"
    and disk: "\<not> isl (resource_ParseQuantity deps (Disk config))"
    and codec: "\<forall>payload. \<exists>bodyJSON body.
             json_Marshal deps payload = Inr bodyJSON \<and> json_Unmarshal deps bodyJSON = Inr body"
  shows "\<exists>body calls. prepareBody deps config = (Inr body, calls)"
proof -
  from cpu obtain c where c: "resource_ParseQuantity deps (CPU config) = Inr c"
    by (cases "resource_ParseQuantity deps (CPU config)") auto
  from memory obtain m where m: "resource_ParseQuantity deps (Memory config) = Inr m"
    by (cases "resource_ParseQuantity deps (Memory config)") auto
  from disk obtain d where d: "resource_ParseQuantity deps (Disk config) = Inr d"
    by (cases "resource_ParseQuantity deps (Disk config)") auto
  show ?thesis
  proof (cases "ExternalAccess config")
    case True
    then obtain payload where
      "prepareBody deps config =
         (case convertPayload deps payload of
            (r, calls) \<Rightarrow> (r, provision_Log (Debug ''Enabling external access'') # calls))"
      by (simp add: prepareBody_def c m d Let_def)
    with convertPayload_total [OF codec, of payload] show ?thesis by auto
  next
    case False
    then obtain payload where "prepareBody deps config = convertPayload deps payload"
      by (simp add: prepareBody_def c m d Let_def)
    with convertPayload_total [OF codec, of payload] show ?thesis by auto
  qed
qed

text \<open>
  C3. Under the translation contract, every wire payload that \<open>prepareBody\<close> returns
  has the empty string as its version when the configured version is \<open>latest\<close>, and
  the configured version itself, verbatim, for every other version string. And
  \<open>prepareBody\<close> does return a wire payload, whatever the version, when the three
  quantities parse and the codec accepts the payloads.
\<close>

theorem prepareBody_version:
  assumes "translationKeeps deps"
  shows "(\<forall>body calls. prepareBody deps config = (Inr body, calls) \<longrightarrow>
            (DB_Version config = ''latest'' \<longrightarrow> wire_version body = [])
          \<and> (DB_Version config \<noteq> ''latest'' \<longrightarrow> wire_version body = DB_Version config))
       \<and> (\<not> isl (resource_ParseQuantity deps (CPU config))
            \<and> \<not> isl (resource_ParseQuantity deps (Memory config))
            \<and> \<not> isl (resource_ParseQuantity deps (Disk config))
            \<and> (\<forall>payload. \<exists>bodyJSON body.
                  json_Marshal deps payload = Inr bodyJSON
                \<and> json_Unmarshal deps bodyJSON = Inr body) \<longrightarrow>
          (\<exists>body calls. prepareBody deps config = (Inr body, calls)))"
proof -
  have version: "wire_version body = (if DB_Version config = ''latest'' then [] else DB_Version config)"
    if "prepareBody deps config = (Inr body, calls)" for body calls
  proof -
    from prepareBody_success [OF that] obtain payload bodyJSON where
      "json_Marshal deps payload = Inr bodyJSON" "json_Unmarshal deps bodyJSON = Inr body"
      "Engine_Version (Spec_Engine (DatabaseCluster_Spec payload))
               = (if DB_Version config = ''latest'' then [] else DB_Version config)"
      by blast
    with assms show ?thesis
      unfolding translationKeeps_def by metis
  qed
  have "(DB_Version config = ''latest'' \<longrightarrow> wire_version body = [])
          \<and> (DB_Version config \<noteq> ''latest'' \<longrightarrow> wire_version body = DB_Version config)"
    if "prepareBody deps config = (Inr body, calls)" for body calls
    using version [OF that] by simp
  then show ?thesis using prepareBody_total [of deps config] by blast
qed

lemma prepareBody_calls:
  "Call_CreateDBCluster kubernetesID body \<notin> set (snd (prepareBody deps config))"
  unfolding prepareBody_def convertPayload_def Let_def
  by (simp split: sum.splits prod.splits)

lemma Run_provision_sent:
  assumes "Call_CreateDBCluster kubernetesID body \<in> set (snd (Run_provision deps config))"
  shows "\<exists>calls. prepareBody deps config = (Inr body, calls) \<and> kubernetesID = KubernetesID config"
proof (cases "prepareBody deps config")
  case (Pair r calls)
  have no: "Call_CreateDBCluster kubernetesID body \<notin> set calls"
    using prepareBody_calls [of kubernetesID body deps config] Pair by simp
  show ?thesis
  proof (cases r)
    case (Inl err)
    with Pair no assms show ?thesis by (simp add: Run_provision_def)
  next
    case (Inr body1)
    with Pair no assms show ?thesis
      by (auto simp: Run_provision_def Let_def split: option.splits)
  qed
qed

text \<open>
  C4, as amended. Under the translation contract, every payload that \<open>Run\<close> hands to
  \<open>CreateDBCluster\<close> has one replica count on the engine and on the proxy:
  \<open>int32\<close> of the configured number of nodes. The code does not check that number;
  the count is the number of nodes, and at least 1, when the configuration has between
  1 and \<open>2^31 - 1\<close> nodes.
\<close>

theorem Run_provision_replicas:
  assumes "translationKeeps deps"
    and "Call_CreateDBCluster kubernetesID body \<in> set (snd (Run_provision deps config))"
  shows "wire_engine_replicas body = int32 (Nodes config)
       \<and> wire_proxy_replicas body = wire_engine_replicas body
       \<and> (1 \<le> Nodes config \<and> Nodes config < 2 ^ 31 \<longrightarrow>
            sint (wire_engine_replicas body) = Nodes config \<and> 1 \<le> sint (wire_proxy_replicas body))"
proof -
  from Run_provision_sent [OF assms(2)] obtain calls where
    "prepareBody deps config = (Inr body, calls)" by blast
  from prepareBody_success [OF this] obtain payload bodyJSON where
    "json_Marshal deps payload = Inr bodyJSON" "json_Unmarshal deps bodyJSON = Inr body"
    and er: "Engine_Replicas (Spec_Engine (DatabaseCluster_Spec payload)) = int32 (Nodes config)"
    and pr: "Proxy_Replicas (Spec_Proxy (DatabaseCluster_Spec payload)) = Some (int32 (Nodes config))"
    by blast
  with assms(1) have keeps:
    "wire_engine_replicas body = Engine_Replicas (Spec_Engine (DatabaseCluster_Spec payload))"
    "wire_proxy_replicas body =
       (case Proxy_Replicas (Spec_Proxy (DatabaseCluster_Spec payload)) of None \<Rightarrow> 0 | Some r \<Rightarrow> r)"
    unfolding translationKeeps_def by metis+
  have eq: "wire_engine_replicas body = int32 (Nodes config)"
    "wire_proxy_replicas body = int32 (Nodes config)"
    using keeps er pr by simp_all
  have "sint (int32 n) = n" if "1 \<le> n" "n < 2 ^ 31" for n
    using that unfolding int32_def by (simp add: signed_of_int signed_take_bit_int_eq_self)
  with eq show ?thesis by auto
qed


lemma translationKeeps_ref: "translationKeeps deps_ref"
  unfolding translationKeeps_def deps_ref_def
  by (auto simp: Marshal_ref_def Unmarshal_ref_def Let_def split: option.splits)

lemma prepareBody_example:
  "fst (prepareBody deps_ref config_example) =
     Inr \<lparr>wire_engine_replicas = 3, wire_proxy_replicas = 3, wire_version = [],
          wire_exposure = ''internal'', wire_storage_size = ''100Gi'', wire_cpu = ''2'',
          wire_memory = ''4Gi''\<rparr>"
  by (simp add: prepareBody_def convertPayload_def deps_ref_def
      config_example_def ParseQuantity_ref_2 ParseQuantity_ref_4Gi ParseQuantity_ref_100Gi
      Marshal_ref_def Unmarshal_ref_def Let_def int32_def DatabaseEnginePXC_def exposureText_def)

lemma codec_ref_total:
  "\<forall>payload. \<exists>bodyJSON body.
     json_Marshal deps_ref payload = Inr bodyJSON \<and> json_Unmarshal deps_ref bodyJSON = Inr body"
  by (simp add: deps_ref_def Marshal_ref_def Unmarshal_ref_def Let_def)

lemma quantities_example:
  "\<not> isl (resource_ParseQuantity deps_ref (CPU (config_example\<lparr>DB_Version := v\<rparr>)))"
  "\<not> isl (resource_ParseQuantity deps_ref (Memory (config_example\<lparr>DB_Version := v\<rparr>)))"
  "\<not> isl (resource_ParseQuantity deps_ref (Disk (config_example\<lparr>DB_Version := v\<rparr>)))"
  by (simp_all add: deps_ref_def config_example_def ParseQuantity_ref_2 ParseQuantity_ref_4Gi
      ParseQuantity_ref_100Gi)

theorem prepareBody_version_witness:
  "translationKeeps deps_ref
   \<and> (\<exists>body calls.
        prepareBody deps_ref (config_example\<lparr>DB_Version := ''latest''\<rparr>) = (Inr body, calls)
      \<and> wire_version body = [])
   \<and> (\<exists>body calls.
        prepareBody deps_ref (config_example\<lparr>DB_Version := ''8.0.31''\<rparr>) = (Inr body, calls)
      \<and> wire_version body = ''8.0.31'')"
proof -
  have latest: "\<exists>body calls.
        prepareBody deps_ref (config_example\<lparr>DB_Version := ''latest''\<rparr>) = (Inr body, calls)
      \<and> wire_version body = []"
    using prepareBody_version [OF translationKeeps_ref,
        of "config_example\<lparr>DB_Version := ''latest''\<rparr>"]
      quantities_example [of "''latest''"] codec_ref_total
    by (simp only: simp_thms) (auto simp: config_example_def)
  have other: "\<exists>body calls.
        prepareBody deps_ref (config_example\<lparr>DB_Version := ''8.0.31''\<rparr>) = (Inr body, calls)
      \<and> wire_version body = ''8.0.31''"
    using prepareBody_version [OF translationKeeps_ref,
        of "config_example\<lparr>DB_Version := ''8.0.31''\<rparr>"]
      quantities_example [of "''8.0.31''"] codec_ref_total
    by (simp only: simp_thms) (auto simp: config_example_def)
  from translationKeeps_ref latest other show ?thesis by blast
qed

lemma Run_provision_example:
  "Run_provision deps_ref config_example =
     (None,
      provision_Log (Info ''Preparing cluster config'') # snd (prepareBody deps_ref config_example) @
       [provision_Log (Infof ''Creating %q database cluster'' [''db1'']),
        Call_CreateDBCluster ''k8s-1''
          \<lparr>wire_engine_replicas = 3, wire_proxy_replicas = 3, wire_version = [],
           wire_exposure = ''internal'', wire_storage_size = ''100Gi'', wire_cpu = ''2'',
           wire_memory = ''4Gi''\<rparr>,
        provision_Log (Infof ''Database cluster %q has been scheduled to Kubernetes'' [''db1''])])"
proof -
  obtain calls where pb: "prepareBody deps_ref config_example =
      (Inr \<lparr>wire_engine_replicas = 3, wire_proxy_replicas = 3, wire_version = [],
           wire_exposure = ''internal'', wire_storage_size = ''100Gi'', wire_cpu = ''2'',
           wire_memory = ''4Gi''\<rparr>, calls)"
    using prepareBody_example by (cases "prepareBody deps_ref config_example") simp
  have "everestClient_CreateDBCluster deps_ref k b = None" for k b
    by (simp add: deps_ref_def)
  moreover have "Name config_example = ''db1''" "KubernetesID config_example = ''k8s-1''"
    by (simp_all add: config_example_def)
  ultimately show ?thesis
    by (simp add: Run_provision_def pb Let_def)
qed

theorem Run_provision_replicas_witness:
  "translationKeeps deps_ref
   \<and> Call_CreateDBCluster ''k8s-1''
          \<lparr>wire_engine_replicas = 3, wire_proxy_replicas = 3, wire_version = [],
           wire_exposure = ''internal'', wire_storage_size = ''100Gi'', wire_cpu = ''2'',
           wire_memory = ''4Gi''\<rparr> \<in> set (snd (Run_provision deps_ref config_example))
   \<and> int32 (Nodes config_example) = 3
   \<and> 1 \<le> Nodes config_example \<and> Nodes config_example < 2 ^ 31"
  using Run_provision_replicas [OF translationKeeps_ref, of "''k8s-1''"
          "\<lparr>wire_engine_replicas = 3, wire_proxy_replicas = 3, wire_version = [],
           wire_exposure = ''internal'', wire_storage_size = ''100Gi'', wire_cpu = ''2'',
           wire_memory = ''4Gi''\<rparr>" config_example]
  by (simp add: translationKeeps_ref Run_provision_example) (simp add: config_example_def)

lemma prepareBody_zero_nodes:
  "fst (prepareBody deps_ref (config_example\<lparr>Nodes := 0\<rparr>)) =
     Inr \<lparr>wire_engine_replicas = 0, wire_proxy_replicas = 0, wire_version = [],
          wire_exposure = ''internal'', wire_storage_size = ''100Gi'', wire_cpu = ''2'',
          wire_memory = ''4Gi''\<rparr>"
  by (simp add: prepareBody_def convertPayload_def deps_ref_def
      config_example_def ParseQuantity_ref_2 ParseQuantity_ref_4Gi ParseQuantity_ref_100Gi
      Marshal_ref_def Unmarshal_ref_def Let_def int32_def DatabaseEnginePXC_def exposureText_def)

text \<open>
  C4 as stated fails: with zero nodes configured and valid quantities the command
  succeeds and the payload it sends has the replica count 0.
\<close>

theorem Run_provision_zero_nodes:
  "fst (Run_provision deps_ref (config_example\<lparr>Nodes := 0\<rparr>)) = None
   \<and> Call_CreateDBCluster ''k8s-1''
          \<lparr>wire_engine_replicas = 0, wire_proxy_replicas = 0, wire_version = [],
           wire_exposure = ''internal'', wire_storage_size = ''100Gi'', wire_cpu = ''2'',
           wire_memory = ''4Gi''\<rparr>
        \<in> set (snd (Run_provision deps_ref (config_example\<lparr>Nodes := 0\<rparr>)))
   \<and> sint (wire_engine_replicas
          \<lparr>wire_engine_replicas = 0, wire_proxy_replicas = 0, wire_version = [],
           wire_exposure = ''internal'', wire_storage_size = ''100Gi'', wire_cpu = ''2'',
           wire_memory = ''4Gi''\<rparr>) < 1"
proof -
  obtain calls where pb: "prepareBody deps_ref (config_example\<lparr>Nodes := 0\<rparr>) =
      (Inr \<lparr>wire_engine_replicas = 0, wire_proxy_replicas = 0, wire_version = [],
           wire_exposure = ''internal'', wire_storage_size = ''100Gi'', wire_cpu = ''2'',
           wire_memory = ''4Gi''\<rparr>, calls)"
    using prepareBody_zero_nodes
    by (cases "prepareBody deps_ref (config_example\<lparr>Nodes := 0\<rparr>)") simp
  have "everestClient_CreateDBCluster deps_ref k b = None" for k b
    by (simp add: deps_ref_def)
  moreover have "KubernetesID (config_example\<lparr>Nodes := 0\<rparr>) = ''k8s-1''"
    by (simp add: config_example_def)
  ultimately show ?thesis
    by (simp add: Run_provision_def pb Let_def)
qed


section \<open>The credential reset\<close>

text \<open>
  C2. When the reset succeeds, it has issued two calls, the namespace lookup and one
  \<open>SetSecret\<close>. The secret has the name \<open>everest-password\<close> and the namespace of the
  configuration, and its data has the single key \<open>password\<close>, whose value is
  \<open>pbkdf2.Key\<close> of the new password with the UID of the namespace as salt, 4096
  iterations, 32 bytes and SHA-256. The password of the response is the string drawn by
  \<open>uniuri.NewLen(128)\<close>; as that string has 128 characters and the key 32 bytes, the
  password is no value of the secret's data, nor its name.
\<close>

theorem Run_reset_secret:
  assumes "Run_reset deps config = (Inr response, calls)"
  shows "\<exists>ns secret.
           kubeClient_GetNamespace deps (Namespace config) = Inr ns
         \<and> calls = [Call_GetNamespace (Namespace config), Call_SetSecret secret]
         \<and> ObjectMeta_Name (Secret_ObjectMeta secret) = ''everest-password''
         \<and> ObjectMeta_Namespace (Secret_ObjectMeta secret) = Namespace config
         \<and> Secret_Data secret =
             [''password'' \<mapsto> pbkdf2_Key deps (Password response) (UID ns) 4096 32 sha256_New]
         \<and> dom (Secret_Data secret) = {''password''}
         \<and> Password response = uniuri_NewLen deps 128
         \<and> (length (uniuri_NewLen deps 128) = 128
              \<and> length (pbkdf2_Key deps (Password response) (UID ns) 4096 32 sha256_New) = 32
              \<longrightarrow> Password response \<notin> ran (Secret_Data secret)
                \<and> Password response \<noteq> ObjectMeta_Name (Secret_ObjectMeta secret))"
proof (cases "kubeClient_GetNamespace deps (Namespace config)")
  case (Inl err)
  with assms show ?thesis by (simp add: Run_reset_def)
next
  case (Inr ns)
  let ?hash = "pbkdf2_Key deps (uniuri_NewLen deps 128) (UID ns) 4096 32 sha256_New"
  let ?secret = "\<lparr>Secret_TypeMeta = \<lparr>APIVersion = ''v1'', Kind = ''Secret''\<rparr>,
                  Secret_ObjectMeta =
                    \<lparr>ObjectMeta_Name = passwordSecretName,
                     ObjectMeta_Namespace = Namespace config\<rparr>,
                  Secret_Type = SecretTypeOpaque,
                  Secret_Data = [''password'' \<mapsto> ?hash]\<rparr>"
  from assms Inr have resp: "Password response = uniuri_NewLen deps 128"
    and calls: "calls = [Call_GetNamespace (Namespace config), Call_SetSecret ?secret]"
    by (auto simp: Run_reset_def Let_def split: option.splits)
  show ?thesis
    apply (rule exI [of _ ns], rule exI [of _ ?secret])
    using Inr resp calls by (auto simp: passwordSecretName_def)
qed

theorem Run_reset_secret_witness:
  "Run_reset
     \<lparr>kubeClient_GetNamespace = (\<lambda>name. Inr \<lparr>UID = ''0f3a''\<rparr>),
      uniuri_NewLen = (\<lambda>n. replicate n (CHR ''a'')),
      pbkdf2_Key = (\<lambda>password salt iter keyLen h. replicate keyLen (CHR 0x5A)),
      kubeClient_SetSecret = (\<lambda>secret. None)\<rparr>
     \<lparr>KubeconfigPath = ''~/.kube/config'', Namespace = ''percona-everest''\<rparr>
   = (Inr \<lparr>Password = replicate 128 (CHR ''a'')\<rparr>,
      [Call_GetNamespace ''percona-everest'',
       Call_SetSecret
         \<lparr>Secret_TypeMeta = \<lparr>APIVersion = ''v1'', Kind = ''Secret''\<rparr>,
          Secret_ObjectMeta =
            \<lparr>ObjectMeta_Name = ''everest-password'', ObjectMeta_Namespace = ''percona-everest''\<rparr>,
          Secret_Type = SecretTypeOpaque,
          Secret_Data = [''password'' \<mapsto> replicate 32 (CHR 0x5A)]\<rparr>])
   \<and> replicate 128 (CHR ''a'') \<noteq> replicate 32 (CHR 0x5A)"
proof -
  let ?deps = "\<lparr>kubeClient_GetNamespace = (\<lambda>name. Inr \<lparr>UID = ''0f3a''\<rparr>),
      uniuri_NewLen = (\<lambda>n. replicate n (CHR ''a'')),
      pbkdf2_Key = (\<lambda>password salt iter keyLen h. replicate keyLen (CHR 0x5A)),
      kubeClient_SetSecret = (\<lambda>secret. None)\<rparr>"
  let ?config = "\<lparr>KubeconfigPath = ''~/.kube/config'', Namespace = ''percona-everest''\<rparr>"
  have run: "Run_reset ?deps ?config
   = (Inr \<lparr>Password = replicate 128 (CHR ''a'')\<rparr>,
      [Call_GetNamespace ''percona-everest'',
       Call_SetSecret
         \<lparr>Secret_TypeMeta = \<lparr>APIVersion = ''v1'', Kind = ''Secret''\<rparr>,
          Secret_ObjectMeta =
            \<lparr>ObjectMeta_Name = ''everest-password'', ObjectMeta_Namespace = ''percona-everest''\<rparr>,
          Secret_Type = SecretTypeOpaque,
          Secret_Data = [''password'' \<mapsto> replicate 32 (CHR 0x5A)]\<rparr>])"
    by (simp add: Run_reset_def Let_def passwordSecretName_def)
  from Run_reset_secret [OF run] have "replicate 128 (CHR ''a'') \<noteq> replicate 32 (CHR 0x5A)"
    by (auto simp: ran_def)
  with run show ?thesis by (simp only: simp_thms)
qed


section \<open>The version resolver\<close>

lemma checkIfSkip_iff:
  "checkIfSkip t db \<longleftrightarrow>
     Spec db = None
   \<or> (\<exists>spec. Spec db = Some spec \<and> t \<noteq> [] \<and> Type spec \<noteq> t)
   \<or> Status db = None
   \<or> (\<exists>status. Status db = Some status
         \<and> (AvailableVersions status = None
            \<or> (\<exists>av. AvailableVersions status = Some av \<and> Engine av = None)))"
  by (auto simp: checkIfSkip_def split: option.splits)

lemma survivor_spec:
  assumes "\<not> checkIfSkip t db"
  shows "\<exists>spec. Spec db = Some spec \<and> (t = [] \<or> Type spec = t)"
  using assms by (auto simp: checkIfSkip_def split: option.splits if_splits)

lemma survivor_step:
  assumes "\<not> checkIfSkip t db" and "Spec db = Some spec"
  shows "parseVersions_loop nv t (db # items) res =
         (case parseEngine nv (Type spec) (engineVersions db)
                 (if res (Type spec) = None then res(Type spec \<mapsto> []) else res) of
            Inl err \<Rightarrow> Inl err
          | Inr res2 \<Rightarrow> parseVersions_loop nv t items res2)"
  using assms
  by (auto simp: checkIfSkip_def engineVersions_def Let_def split: option.splits if_splits)

lemma parseVersions_loop_skip:
  "checkIfSkip t db \<Longrightarrow>
   parseVersions_loop nv t (pre @ db # post) res = parseVersions_loop nv t (pre @ post) res"
proof (induction pre arbitrary: res)
  case Nil
  then show ?case by simp
next
  case (Cons a pre)
  show ?case
  proof (cases "checkIfSkip t a")
    case True
    with Cons show ?thesis by simp
  next
    case False
    from survivor_spec [OF False] obtain spec where spec: "Spec a = Some spec" by blast
    have "parseVersions_loop nv t (a # (pre @ db # post)) res
        = parseVersions_loop nv t (a # (pre @ post)) res"
      unfolding survivor_step [OF False spec] using Cons.IH [OF Cons.prems]
      by (simp split: sum.splits)
    then show ?thesis by simp
  qed
qed

lemma parseEngine_Inl:
  "parseEngine nv ty ks res = Inl err \<Longrightarrow> \<exists>version\<in>set ks. nv version = Inl err"
  by (induction ks arbitrary: res) (auto split: sum.splits)

lemma parseEngine_Inr:
  "parseEngine nv ty ks res = Inr res' \<Longrightarrow>
     (\<forall>version\<in>set ks. \<not> isl (nv version))
   \<and> dom res' = dom res \<union> (if ks = [] then {} else {ty})"
  by (induction ks arbitrary: res) (auto split: sum.splits if_splits)

lemma parseVersions_loop_dom:
  "parseVersions_loop nv t items res = Inr res' \<Longrightarrow>
   dom res' = dom res \<union>
     {ty. \<exists>db spec. db \<in> set items \<and> \<not> checkIfSkip t db \<and> Spec db = Some spec \<and> Type spec = ty}"
proof (induction items arbitrary: res)
  case Nil
  then show ?case by simp
next
  case (Cons db items)
  show ?case
  proof (cases "checkIfSkip t db")
    case True
    with Cons show ?thesis by auto
  next
    case False
    from survivor_spec [OF False] obtain spec where spec: "Spec db = Some spec" by blast
    note step = survivor_step [OF False spec, of nv items res]
    let ?res1 = "if res (Type spec) = None then res(Type spec \<mapsto> []) else res"
    from Cons.prems step obtain res2 where
      pe: "parseEngine nv (Type spec) (engineVersions db) ?res1 = Inr res2"
      and rest: "parseVersions_loop nv t items res2 = Inr res'"
      by (auto split: sum.splits)
    have d1: "dom ?res1 = insert (Type spec) (dom res)" by auto
    from parseEngine_Inr [OF pe] d1 have d2: "dom res2 = insert (Type spec) (dom res)"
      by (auto split: if_splits)
    from Cons.IH [OF rest] d2 spec False show ?thesis by auto
  qed
qed

lemma parseVersions_loop_fail:
  assumes "\<exists>db\<in>set items. \<not> checkIfSkip t db \<and> (\<exists>version\<in>set (engineVersions db). isl (nv version))"
  shows "\<exists>db\<in>set items. \<exists>version\<in>set (engineVersions db). \<exists>err.
           \<not> checkIfSkip t db \<and> nv version = Inl err
         \<and> parseVersions_loop nv t items res = Inl err"
  using assms
proof (induction items arbitrary: res)
  case Nil
  then show ?case by simp
next
  case (Cons db items)
  show ?case
  proof (cases "checkIfSkip t db")
    case True
    with Cons.prems have
      "\<exists>d\<in>set items. \<not> checkIfSkip t d \<and> (\<exists>version\<in>set (engineVersions d). isl (nv version))"
      by auto
    from Cons.IH [OF this, of res] True show ?thesis by auto
  next
    case False
    from survivor_spec [OF False] obtain spec where spec: "Spec db = Some spec" by blast
    note step = survivor_step [OF False spec, of nv items res]
    let ?res1 = "if res (Type spec) = None then res(Type spec \<mapsto> []) else res"
    show ?thesis
    proof (cases "parseEngine nv (Type spec) (engineVersions db) ?res1")
      case (Inl err)
      from parseEngine_Inl [OF Inl] obtain version where
        "version \<in> set (engineVersions db)" "nv version = Inl err" by blast
      with False step Inl show ?thesis by auto
    next
      case (Inr res2)
      from parseEngine_Inr [OF Inr] have "\<forall>version\<in>set (engineVersions db). \<not> isl (nv version)"
        by blast
      with Cons.prems have
        "\<exists>d\<in>set items. \<not> checkIfSkip t d \<and> (\<exists>version\<in>set (engineVersions d). isl (nv version))"
        by auto
      from Cons.IH [OF this, of res2] step Inr show ?thesis by auto
    qed
  qed
qed

lemma mset_moveDown: "mset (moveDown Less ys x) = add_mset x (mset ys)"
  by (induction ys) auto

lemma mset_foldl_moveDown: "mset (foldl (moveDown Less) acc xs) = mset acc + mset xs"
  by (induction xs arbitrary: acc) (auto simp: mset_moveDown)

lemma mset_sort_Sort: "mset (sort_Sort Less xs) = mset xs"
  by (simp add: sort_Sort_def mset_foldl_moveDown)

lemma set_moveDown: "set (moveDown Less ys x) = insert x (set ys)"
  by (induction ys) auto

text \<open>
  The sorted part, read back to front: no element is \<open>Less\<close> than one after it in the
  list. The inner loop keeps this when \<open>Less\<close> is asymmetric and being not \<open>Less\<close> is
  transitive.
\<close>

lemma sorted_moveDown:
  assumes asym: "\<And>a b. Less a b \<Longrightarrow> \<not> Less b a"
    and negtrans: "\<And>a b c. \<not> Less a b \<Longrightarrow> \<not> Less b c \<Longrightarrow> \<not> Less a c"
    and "sorted_wrt (\<lambda>a b. \<not> Less a b) ys"
  shows "sorted_wrt (\<lambda>a b. \<not> Less a b) (moveDown Less ys x)"
  using assms(3)
proof (induction ys)
  case Nil
  then show ?case by simp
next
  case (Cons y ys)
  show ?case
  proof (cases "Less x y")
    case True
    then have "\<not> Less y x" by (rule asym)
    with True Cons show ?thesis by (auto simp: set_moveDown)
  next
    case False
    have "\<not> Less x z" if "z \<in> set ys" for z
    proof -
      from that Cons.prems have "\<not> Less y z" by simp
      with False show ?thesis by (rule negtrans)
    qed
    with False Cons.prems show ?thesis by simp
  qed
qed

lemma sorted_foldl_moveDown:
  assumes asym: "\<And>a b. Less a b \<Longrightarrow> \<not> Less b a"
    and negtrans: "\<And>a b c. \<not> Less a b \<Longrightarrow> \<not> Less b c \<Longrightarrow> \<not> Less a c"
  shows "sorted_wrt (\<lambda>a b. \<not> Less a b) acc \<Longrightarrow>
    sorted_wrt (\<lambda>a b. \<not> Less a b) (foldl (moveDown Less) acc xs)"
proof (induction xs arbitrary: acc)
  case Nil
  then show ?case by simp
next
  case (Cons x xs)
  have "sorted_wrt (\<lambda>a b. \<not> Less a b) (moveDown Less acc x)"
    by (rule sorted_moveDown [OF asym negtrans Cons.prems])
  then show ?case using Cons.IH by simp
qed

lemma sorted_sort_Sort_Reverse:
  assumes asym: "\<And>a b. LessThan a b \<Longrightarrow> \<not> LessThan b a"
    and negtrans: "\<And>a b c. \<not> LessThan a b \<Longrightarrow> \<not> LessThan b c \<Longrightarrow> \<not> LessThan a c"
  shows "sorted_wrt (\<lambda>a b. \<not> LessThan a b) (sort_Sort (Reverse LessThan) xs)"
proof -
  have "sorted_wrt (\<lambda>a b. \<not> Reverse LessThan a b)
          (foldl (moveDown (Reverse LessThan)) [] xs)"
    by (rule sorted_foldl_moveDown) (auto simp: Reverse_def dest: asym negtrans)
  then have "sorted_wrt (\<lambda>a b. \<not> Reverse LessThan b a)
          (rev (foldl (moveDown (Reverse LessThan)) [] xs))"
    by (simp add: sorted_wrt_rev)
  then show ?thesis by (simp add: sort_Sort_def Reverse_def)
qed

lemma appendOriginals_eq: "appendOriginals Original versions out = out @ map Original versions"
  by (induction versions arbitrary: out) auto

lemma String_loop_eq:
  "distinct keys \<Longrightarrow>
   String_loop Original LessThan keys v out =
     (out @ concat (map (\<lambda>engine. case v engine of None \<Rightarrow> []
          | Some versions \<Rightarrow> [''-----'', engine, ''-----'']
               @ map Original (sort_Sort (Reverse LessThan) versions)) keys),
      (\<lambda>engine. if engine \<in> set keys then map_option (sort_Sort (Reverse LessThan)) (v engine)
                 else v engine))"
proof (induction keys arbitrary: v out)
  case Nil
  then show ?case by simp
next
  case (Cons engine keys)
  then have notin: "engine \<notin> set keys" and dist: "distinct keys" by simp_all
  show ?case
  proof (cases "v engine")
    case None
    have "(\<lambda>e. if e \<in> set keys then map_option (sort_Sort (Reverse LessThan)) (v e) else v e)
        = (\<lambda>e. if e \<in> set (engine # keys) then map_option (sort_Sort (Reverse LessThan)) (v e) else v e)"
      using None by auto
    with None Cons.IH [OF dist, of v out] show ?thesis by simp
  next
    case (Some versions)
    let ?s = "sort_Sort (Reverse LessThan) versions"
    let ?v1 = "v(engine \<mapsto> ?s)"
    let ?out2 = "appendOriginals Original ?s (out @ [''-----'', engine, ''-----''])"
    have blocks: "map (\<lambda>e. case ?v1 e of None \<Rightarrow> []
          | Some vs \<Rightarrow> [''-----'', e, ''-----''] @ map Original (sort_Sort (Reverse LessThan) vs)) keys
       = map (\<lambda>e. case v e of None \<Rightarrow> []
          | Some vs \<Rightarrow> [''-----'', e, ''-----''] @ map Original (sort_Sort (Reverse LessThan) vs)) keys"
      using notin by (intro map_cong) auto
    have cat: "(\<lambda>e. if e \<in> set keys then map_option (sort_Sort (Reverse LessThan)) (?v1 e) else ?v1 e)
        = (\<lambda>e. if e \<in> set (engine # keys) then map_option (sort_Sort (Reverse LessThan)) (v e) else v e)"
      using notin Some by auto
    have step: "String_loop Original LessThan (engine # keys) v out
        = String_loop Original LessThan keys ?v1 ?out2"
      using Some by (simp add: Let_def)
    have out2: "?out2 = out @ [''-----'', engine, ''-----''] @ map Original ?s"
      by (simp add: appendOriginals_eq)
    have first: "(case v engine of None \<Rightarrow> []
          | Some vs \<Rightarrow> [''-----'', engine, ''-----''] @ map Original (sort_Sort (Reverse LessThan) vs))
        = [''-----'', engine, ''-----''] @ map Original ?s"
      using Some by simp
    show ?thesis
      unfolding step Cons.IH [OF dist] blocks cat out2
      by (simp only: list.map concat.simps first append_assoc)
  qed
qed

text \<open>
  C6. A record with no specification, a record whose engine type differs from a
  requested (non-empty) type filter, and a record with no status, no available-versions
  block or no engine-versions block is skipped: \<open>parseVersions\<close> returns for a list with
  the record what it returns for the list without it, catalog or error. Under a
  non-empty type filter the catalog has no bucket but the one of the filter, as with
  the filter \<open>pxc\<close> over a \<open>pxc\<close> and a \<open>psmdb\<close> record.
\<close>

theorem parseVersions_skip:
  assumes "Spec db = None
         \<or> (\<exists>spec. Spec db = Some spec \<and> t \<noteq> [] \<and> Type spec \<noteq> t)
         \<or> Status db = None
         \<or> (\<exists>status. Status db = Some status
               \<and> (AvailableVersions status = None
                  \<or> (\<exists>av. AvailableVersions status = Some av \<and> Engine av = None)))"
  shows "checkIfSkip t db
       \<and> parseVersions NewVersion t (pre @ db # post) = parseVersions NewVersion t (pre @ post)
       \<and> (\<forall>items res. t \<noteq> [] \<and> parseVersions NewVersion t items = Inr res \<longrightarrow> dom res \<subseteq> {t})"
proof -
  from assms have skip: "checkIfSkip t db" by (simp only: checkIfSkip_iff)
  have "dom res \<subseteq> {t}" if "t \<noteq> []" "parseVersions NewVersion t items = Inr res" for items res
  proof -
    from that(2) have "dom res = {ty. \<exists>db spec. db \<in> set items \<and> \<not> checkIfSkip t db
        \<and> Spec db = Some spec \<and> Type spec = ty}"
      using parseVersions_loop_dom [of NewVersion t items Map.empty res]
      by (simp add: parseVersions_def)
    moreover have "Type spec = t" if "\<not> checkIfSkip t d" "Spec d = Some spec" for d spec
      using survivor_spec [OF that(1)] that(2) \<open>t \<noteq> []\<close> by auto
    ultimately show ?thesis by auto
  qed
  then have only: "\<forall>items res. t \<noteq> [] \<and> parseVersions NewVersion t items = Inr res \<longrightarrow> dom res \<subseteq> {t}"
    by blast
  have "parseVersions NewVersion t (pre @ db # post) = parseVersions NewVersion t (pre @ post)"
    using skip by (simp add: parseVersions_def parseVersions_loop_skip)
  with skip only show ?thesis by blast
qed

lemma NewVersion_ref_8_0_31:
  "NewVersion_ref ''8.0.31'' = Inr \<lparr>major = 8, minor = 0, patch = 31, original = ''8.0.31''\<rparr>"
  by (simp add: NewVersion_ref_def parseNumber_def digitValue_def)

theorem parseVersions_skip_witness:
  "checkIfSkip ''pxc'' (engineRecord ''psmdb'' [''6.0.5''])
   \<and> parseVersions NewVersion_ref ''pxc''
        [engineRecord ''pxc'' [''8.0.31''], engineRecord ''psmdb'' [''6.0.5'']]
      = Inr [''pxc'' \<mapsto> [\<lparr>major = 8, minor = 0, patch = 31, original = ''8.0.31''\<rparr>]]
   \<and> dom [''pxc'' \<mapsto> [\<lparr>major = 8, minor = 0, patch = 31, original = ''8.0.31''\<rparr>]] \<subseteq> {''pxc''}"
proof -
  have pxc: "parseVersions NewVersion_ref ''pxc'' [engineRecord ''pxc'' [''8.0.31'']]
      = Inr [''pxc'' \<mapsto> [\<lparr>major = 8, minor = 0, patch = 31, original = ''8.0.31''\<rparr>]]"
    by (simp add: parseVersions_def checkIfSkip_def engineRecord_def bucket_def
        NewVersion_ref_8_0_31)
  have "\<exists>spec. Spec (engineRecord ''psmdb'' [''6.0.5'']) = Some spec \<and> ''pxc'' \<noteq> [] \<and> Type spec \<noteq> ''pxc''"
    by (simp add: engineRecord_def)
  then have "checkIfSkip ''pxc'' (engineRecord ''psmdb'' [''6.0.5''])
       \<and> parseVersions NewVersion_ref ''pxc'' ([engineRecord ''pxc'' [''8.0.31'']]
              @ engineRecord ''psmdb'' [''6.0.5''] # [])
          = parseVersions NewVersion_ref ''pxc'' ([engineRecord ''pxc'' [''8.0.31'']] @ [])"
    using parseVersions_skip [of "engineRecord ''psmdb'' [''6.0.5'']" "''pxc''" NewVersion_ref
        "[engineRecord ''pxc'' [''8.0.31'']]" "[]"]
    by blast
  with pxc show ?thesis by simp
qed

text \<open>
  C9. When the control plane returns a list in which a record that is not skipped has a
  version string that the parser rejects, \<open>Run\<close> returns no catalog but an error, and
  the error is the one the parser returned for a version string of a record that is not
  skipped (the first it meets), as it is.
\<close>

theorem Run_versions_parse_failure:
  assumes "ListDatabaseEngines config_KubernetesID = Inr dbEngines"
    and "Items dbEngines = Some items"
    and "db \<in> set items" and "\<not> checkIfSkip t db"
    and "version \<in> set (engineVersions db)" and "isl (NewVersion version)"
  shows "\<exists>db'\<in>set items. \<exists>version'\<in>set (engineVersions db'). \<exists>err.
           \<not> checkIfSkip t db' \<and> NewVersion version' = Inl err
         \<and> Run_versions ListDatabaseEngines NewVersion config_KubernetesID t = Inl err"
proof -
  from assms(3-6) have
    "\<exists>d\<in>set items. \<not> checkIfSkip t d \<and> (\<exists>v\<in>set (engineVersions d). isl (NewVersion v))"
    by blast
  from parseVersions_loop_fail [OF this, of Map.empty] assms(1,2) show ?thesis
    by (simp add: Run_versions_def parseVersions_def)
qed

lemma NewVersion_ref_rc: "NewVersion_ref ''8.0.x'' = Inl (New ''Malformed version: 8.0.x'')"
  by (simp add: NewVersion_ref_def parseNumber_def digitValue_def)

theorem Run_versions_parse_failure_witness:
  "Run_versions
     (\<lambda>kubernetesID. Inr \<lparr>Items = Some [engineRecord ''pxc'' [''8.0.31'', ''8.0.x'']]\<rparr>)
     NewVersion_ref ''k8s-1'' [] = Inl (New ''Malformed version: 8.0.x'')
   \<and> \<not> checkIfSkip [] (engineRecord ''pxc'' [''8.0.31'', ''8.0.x''])
   \<and> isl (NewVersion_ref ''8.0.x'')"
proof -
  let ?db = "engineRecord ''pxc'' [''8.0.31'', ''8.0.x'']"
  let ?L = "\<lambda>kubernetesID :: string. Inr \<lparr>Items = Some [?db]\<rparr> :: error + DatabaseEngineList"
  have skip: "\<not> checkIfSkip [] ?db" by (simp add: checkIfSkip_def engineRecord_def)
  have vs: "engineVersions ?db = [''8.0.31'', ''8.0.x'']"
    by (simp add: engineVersions_def engineRecord_def)
  have bad: "isl (NewVersion_ref ''8.0.x'')" by (simp add: NewVersion_ref_rc)
  from Run_versions_parse_failure [of ?L "''k8s-1''" "\<lparr>Items = Some [?db]\<rparr>" "[?db]" ?db "[]"
      "''8.0.x''" NewVersion_ref] skip bad
  obtain err version where "version \<in> set (engineVersions ?db)" "NewVersion_ref version = Inl err"
    "Run_versions ?L NewVersion_ref ''k8s-1'' [] = Inl err"
    by (auto simp: vs)
  then have "Run_versions ?L NewVersion_ref ''k8s-1'' [] = Inl (New ''Malformed version: 8.0.x'')"
    by (auto simp: vs NewVersion_ref_8_0_31 NewVersion_ref_rc)
  with skip bad show ?thesis by simp
qed

lemma String_VersionsList_eq:
  assumes "distinct keys" and "set keys \<subseteq> dom v"
  shows "String_VersionsList Original LessThan keys v =
     (strings_Join
        (concat (map (\<lambda>engine. [''-----'', engine, ''-----'']
                  @ map Original (sort_Sort (Reverse LessThan) (bucket v engine))) keys))
        [CHR 0x0A],
      (\<lambda>engine. if engine \<in> set keys then Some (sort_Sort (Reverse LessThan) (bucket v engine))
                 else v engine))"
proof -
  have blocks: "map (\<lambda>engine. case v engine of None \<Rightarrow> []
          | Some versions \<Rightarrow> [''-----'', engine, ''-----'']
               @ map Original (sort_Sort (Reverse LessThan) versions)) keys
     = map (\<lambda>engine. [''-----'', engine, ''-----'']
                  @ map Original (sort_Sort (Reverse LessThan) (bucket v engine))) keys"
    using assms(2) by (intro map_cong) (auto simp: bucket_def)
  have cat: "(\<lambda>engine. if engine \<in> set keys
                 then map_option (sort_Sort (Reverse LessThan)) (v engine) else v engine)
     = (\<lambda>engine. if engine \<in> set keys then Some (sort_Sort (Reverse LessThan) (bucket v engine))
                 else v engine)"
    using assms(2) by (auto simp: bucket_def fun_eq_iff)
  show ?thesis
    unfolding String_VersionsList_def String_loop_eq [OF assms(1)] blocks cat by simp
qed

text \<open>
  C7, as amended. For a catalog whose engine types the loop enumerates, each once, and
  a version order as \<open>sort.Sort\<close> asks it (asymmetric and transitive, with being not
  less transitive too), the rendered text is the lines of
  one block per engine type, joined by newlines with none after the last line. A block
  is headed by three lines, \<open>-----\<close>, the engine type and \<open>-----\<close>, and followed by
  the version strings of the engine type, one per line, in descending order: the same
  versions as the bucket holds, none of them less than a later one.
\<close>

theorem String_VersionsList_blocks:
  assumes "distinct keys" and "set keys = dom v"
    and "\<forall>a b. LessThan a b \<longrightarrow> \<not> LessThan b a"
    and "\<forall>a b c. LessThan a b \<longrightarrow> LessThan b c \<longrightarrow> LessThan a c"
    and "\<forall>a b c. \<not> LessThan a b \<longrightarrow> \<not> LessThan b c \<longrightarrow> \<not> LessThan a c"
  shows "\<exists>ranked.
           (\<forall>engine\<in>set keys.
              mset (ranked engine) = mset (bucket v engine)
            \<and> sorted_wrt (\<lambda>a b. \<not> LessThan a b) (ranked engine))
         \<and> fst (String_VersionsList Original LessThan keys v) =
             strings_Join
               (concat (map (\<lambda>engine. [''-----'', engine, ''-----'']
                         @ map Original (ranked engine)) keys))
               [CHR 0x0A]"
proof -
  let ?ranked = "\<lambda>engine. sort_Sort (Reverse LessThan) (bucket v engine)"
  have "sorted_wrt (\<lambda>a b. \<not> LessThan a b) (?ranked engine)" for engine
    by (rule sorted_sort_Sort_Reverse) (use assms(3,5) in blast)+
  moreover have "mset (?ranked engine) = mset (bucket v engine)" for engine
    by (rule mset_sort_Sort)
  moreover have "fst (String_VersionsList Original LessThan keys v) =
             strings_Join
               (concat (map (\<lambda>engine. [''-----'', engine, ''-----'']
                         @ map Original (?ranked engine)) keys))
               [CHR 0x0A]"
    using assms(1,2) by (simp add: String_VersionsList_eq)
  ultimately show ?thesis by (intro exI [of _ ?ranked]) simp
qed

lemma LessThan_ref_asym: "\<forall>a b. LessThan_ref a b \<longrightarrow> \<not> LessThan_ref b a"
  by (auto simp: LessThan_ref_def)

lemma LessThan_ref_trans: "\<forall>a b c. LessThan_ref a b \<longrightarrow> LessThan_ref b c \<longrightarrow> LessThan_ref a c"
  by (auto simp: LessThan_ref_def)

lemma LessThan_ref_negtrans:
  "\<forall>a b c. \<not> LessThan_ref a b \<longrightarrow> \<not> LessThan_ref b c \<longrightarrow> \<not> LessThan_ref a c"
  by (auto simp: LessThan_ref_def)

lemma String_catalog_example:
  "String_VersionsList original LessThan_ref [''pxc''] catalog_example =
     (strings_Join [''-----'', ''pxc'', ''-----'', ''2.1.0'', ''1.9.9'', ''1.0.0''] [CHR 0x0A],
      [''pxc'' \<mapsto>
        [\<lparr>major = 2, minor = 1, patch = 0, original = ''2.1.0''\<rparr>,
         \<lparr>major = 1, minor = 9, patch = 9, original = ''1.9.9''\<rparr>,
         \<lparr>major = 1, minor = 0, patch = 0, original = ''1.0.0''\<rparr>]])"
  by (simp add: String_VersionsList_def catalog_example_def sort_Sort_def Reverse_def
      LessThan_ref_def Let_def)

theorem String_VersionsList_blocks_witness:
  "distinct [''pxc''] \<and> set [''pxc''] = dom catalog_example
   \<and> (\<exists>ranked.
        (\<forall>engine\<in>set [''pxc''].
           mset (ranked engine) = mset (bucket catalog_example engine)
         \<and> sorted_wrt (\<lambda>a b. \<not> LessThan_ref a b) (ranked engine))
      \<and> fst (String_VersionsList original LessThan_ref [''pxc''] catalog_example) =
          strings_Join
            (concat (map (\<lambda>engine. [''-----'', engine, ''-----'']
                      @ map original (ranked engine)) [''pxc'']))
            [CHR 0x0A])
   \<and> fst (String_VersionsList original LessThan_ref [''pxc''] catalog_example) =
       strings_Join [''-----'', ''pxc'', ''-----'', ''2.1.0'', ''1.9.9'', ''1.0.0''] [CHR 0x0A]"
proof -
  have keys: "distinct [''pxc'']" "set [''pxc''] = dom catalog_example"
    by (simp_all add: catalog_example_def)
  from String_VersionsList_blocks [OF keys LessThan_ref_asym LessThan_ref_trans LessThan_ref_negtrans,
      of original]
    keys String_catalog_example
  show ?thesis by (simp only: fst_conv simp_thms)
qed

text \<open>
  C7 as stated fails: for the catalog of the ordering example the text has the three
  header lines \<open>-----\<close>, \<open>pxc\<close>, \<open>-----\<close>, not the single line \<open>-----pxc-----\<close>.
\<close>

theorem String_VersionsList_header_lines:
  "fst (String_VersionsList original LessThan_ref [''pxc''] catalog_example) =
     strings_Join [''-----'', ''pxc'', ''-----'', ''2.1.0'', ''1.9.9'', ''1.0.0''] [CHR 0x0A]
   \<and> fst (String_VersionsList original LessThan_ref [''pxc''] catalog_example) \<noteq>
     strings_Join [''-----pxc-----'', ''2.1.0'', ''1.9.9'', ''1.0.0''] [CHR 0x0A]"
  by (simp add: String_catalog_example)


text \<open>
  C8, as amended. Rendering keeps the engine types of the catalog and, in each bucket,
  the versions with their multiplicities, but not their order: for a version order as
  \<open>sort.Sort\<close> asks it (asymmetric and transitive, with being not less transitive
  too) it leaves every bucket in descending order.
\<close>

theorem String_VersionsList_catalog:
  assumes "distinct keys" and "set keys = dom v"
    and "\<forall>a b. LessThan a b \<longrightarrow> \<not> LessThan b a"
    and "\<forall>a b c. LessThan a b \<longrightarrow> LessThan b c \<longrightarrow> LessThan a c"
    and "\<forall>a b c. \<not> LessThan a b \<longrightarrow> \<not> LessThan b c \<longrightarrow> \<not> LessThan a c"
  shows "dom (snd (String_VersionsList Original LessThan keys v)) = dom v
       \<and> (\<forall>engine. mset (bucket (snd (String_VersionsList Original LessThan keys v)) engine)
                     = mset (bucket v engine))
       \<and> (\<forall>engine\<in>set keys.
            sorted_wrt (\<lambda>a b. \<not> LessThan a b)
              (bucket (snd (String_VersionsList Original LessThan keys v)) engine))"
proof -
  let ?v1 = "\<lambda>engine. if engine \<in> set keys
               then Some (sort_Sort (Reverse LessThan) (bucket v engine)) else v engine"
  have after: "snd (String_VersionsList Original LessThan keys v) = ?v1"
    using assms(1,2) by (simp add: String_VersionsList_eq)
  have "dom ?v1 = dom v"
    using assms(2) by (auto split: if_splits)
  moreover have "mset (bucket ?v1 engine) = mset (bucket v engine)" for engine
    by (simp add: bucket_def mset_sort_Sort)
  moreover have "sorted_wrt (\<lambda>a b. \<not> LessThan a b) (bucket ?v1 engine)"
    if "engine \<in> set keys" for engine
  proof -
    have "sorted_wrt (\<lambda>a b. \<not> LessThan a b) (sort_Sort (Reverse LessThan) (bucket v engine))"
      by (rule sorted_sort_Sort_Reverse) (use assms(3,5) in blast)+
    with that show ?thesis by (simp add: bucket_def)
  qed
  ultimately show ?thesis unfolding after by blast
qed

theorem String_VersionsList_catalog_witness:
  "distinct [''pxc''] \<and> set [''pxc''] = dom catalog_example
   \<and> dom (snd (String_VersionsList original LessThan_ref [''pxc''] catalog_example))
       = dom catalog_example
   \<and> mset (bucket (snd (String_VersionsList original LessThan_ref [''pxc''] catalog_example)) ''pxc'')
       = mset (bucket catalog_example ''pxc'')
   \<and> sorted_wrt (\<lambda>a b. \<not> LessThan_ref a b)
        (bucket (snd (String_VersionsList original LessThan_ref [''pxc''] catalog_example)) ''pxc'')"
proof -
  have keys: "distinct [''pxc'']" "set [''pxc''] = dom catalog_example"
    by (simp_all add: catalog_example_def)
  from String_VersionsList_catalog [OF keys LessThan_ref_asym LessThan_ref_trans LessThan_ref_negtrans,
      of original]
    keys
  show ?thesis by simp
qed

text \<open>
  C8 as stated fails: the bucket 1.0.0, 2.1.0, 1.9.9 of the ordering example is
  2.1.0, 1.9.9, 1.0.0 after the method has run.
\<close>

theorem String_VersionsList_reorders:
  "catalog_example ''pxc'' =
     Some [\<lparr>major = 1, minor = 0, patch = 0, original = ''1.0.0''\<rparr>,
           \<lparr>major = 2, minor = 1, patch = 0, original = ''2.1.0''\<rparr>,
           \<lparr>major = 1, minor = 9, patch = 9, original = ''1.9.9''\<rparr>]
   \<and> snd (String_VersionsList original LessThan_ref [''pxc''] catalog_example) ''pxc'' =
     Some [\<lparr>major = 2, minor = 1, patch = 0, original = ''2.1.0''\<rparr>,
           \<lparr>major = 1, minor = 9, patch = 9, original = ''1.9.9''\<rparr>,
           \<lparr>major = 1, minor = 0, patch = 0, original = ''1.0.0''\<rparr>]
   \<and> snd (String_VersionsList original LessThan_ref [''pxc''] catalog_example) \<noteq> catalog_example"
proof -
  have before: "catalog_example ''pxc'' =
     Some [\<lparr>major = 1, minor = 0, patch = 0, original = ''1.0.0''\<rparr>,
           \<lparr>major = 2, minor = 1, patch = 0, original = ''2.1.0''\<rparr>,
           \<lparr>major = 1, minor = 9, patch = 9, original = ''1.9.9''\<rparr>]"
    by (simp add: catalog_example_def)
  have after: "snd (String_VersionsList original LessThan_ref [''pxc''] catalog_example) ''pxc'' =
     Some [\<lparr>major = 2, minor = 1, patch = 0, original = ''2.1.0''\<rparr>,
           \<lparr>major = 1, minor = 9, patch = 9, original = ''1.9.9''\<rparr>,
           \<lparr>major = 1, minor = 0, patch = 0, original = ''1.0.0''\<rparr>]"
    by (simp add: String_catalog_example)
  have "snd (String_VersionsList original LessThan_ref [''pxc''] catalog_example) ''pxc''
      \<noteq> catalog_example ''pxc''"
    unfolding before after by simp
  then have "snd (String_VersionsList original LessThan_ref [''pxc''] catalog_example)
      \<noteq> catalog_example"
    by metis
  with before after show ?thesis by blast
qed

text \<open>
  C10, as amended. A record with specification, status and available versions, whose
  engine map is not nil but empty, and whose type the type filter does not exclude (no
  filter, or the filter is its type), is not skipped. It adds the empty bucket of its
  type to a catalog that has none for the type and changes no other catalog; alone, it
  gives the catalog of that one empty bucket, rendered as the three header lines. In
  the text of any catalog where the bucket of the type is empty, the header of the type
  is followed by no version line: the next line, if any, starts the next block.
\<close>

theorem empty_engine_map_bucket:
  assumes "Spec db = Some spec" and "Status db = Some status"
    and "AvailableVersions status = Some av" and "Engine av = Some []"
    and "t = [] \<or> Type spec = t"
  shows "\<not> checkIfSkip t db
       \<and> parseVersions_loop NewVersion t [db] res =
           Inr (if res (Type spec) = None then res(Type spec \<mapsto> []) else res)
       \<and> parseVersions NewVersion t [db] = Inr [Type spec \<mapsto> []]
       \<and> fst (String_VersionsList Original LessThan [Type spec] [Type spec \<mapsto> []]) =
           strings_Join [''-----'', Type spec, ''-----''] [CHR 0x0A]
       \<and> (\<forall>keys1 keys2 v.
             distinct (keys1 @ Type spec # keys2) \<and> set (keys1 @ Type spec # keys2) = dom v
               \<and> v (Type spec) = Some [] \<longrightarrow>
             fst (String_VersionsList Original LessThan (keys1 @ Type spec # keys2) v) =
               strings_Join
                 (concat (map (\<lambda>engine. [''-----'', engine, ''-----'']
                    @ map Original (sort_Sort (Reverse LessThan) (bucket v engine))) keys1)
                  @ [''-----'', Type spec, ''-----'']
                  @ concat (map (\<lambda>engine. [''-----'', engine, ''-----'']
                    @ map Original (sort_Sort (Reverse LessThan) (bucket v engine))) keys2))
                 [CHR 0x0A])"
proof -
  from assms have skip: "\<not> checkIfSkip t db"
    by (auto simp: checkIfSkip_def)
  from assms have vs: "engineVersions db = []"
    by (simp add: engineVersions_def)
  have loop: "parseVersions_loop NewVersion t [db] res =
           Inr (if res (Type spec) = None then res(Type spec \<mapsto> []) else res)" for res
    unfolding survivor_step [OF skip assms(1)] vs by simp
  have single: "parseVersions NewVersion t [db] = Inr [Type spec \<mapsto> []]"
    unfolding parseVersions_def loop by simp
  have render: "fst (String_VersionsList Original LessThan [Type spec] [Type spec \<mapsto> []]) =
           strings_Join [''-----'', Type spec, ''-----''] [CHR 0x0A]"
    by (simp add: String_VersionsList_def sort_Sort_def Let_def)
  have general: "fst (String_VersionsList Original LessThan (keys1 @ Type spec # keys2) v) =
               strings_Join
                 (concat (map (\<lambda>engine. [''-----'', engine, ''-----'']
                    @ map Original (sort_Sort (Reverse LessThan) (bucket v engine))) keys1)
                  @ [''-----'', Type spec, ''-----'']
                  @ concat (map (\<lambda>engine. [''-----'', engine, ''-----'']
                    @ map Original (sort_Sort (Reverse LessThan) (bucket v engine))) keys2))
                 [CHR 0x0A]"
    if "distinct (keys1 @ Type spec # keys2)" "set (keys1 @ Type spec # keys2) = dom v"
      "v (Type spec) = Some []" for keys1 keys2 v
  proof -
    from that(2) have sub: "set (keys1 @ Type spec # keys2) \<subseteq> dom v" by simp
    have "sort_Sort (Reverse LessThan) (bucket v (Type spec)) = []"
      using that(3) by (simp add: bucket_def sort_Sort_def)
    then show ?thesis
      unfolding String_VersionsList_eq [OF that(1) sub] by simp
  qed
  from skip loop single render general show ?thesis by blast
qed

theorem empty_engine_map_bucket_witness:
  "\<not> checkIfSkip [] (engineRecord ''pxc'' [])
   \<and> parseVersions NewVersion_ref [] [engineRecord ''pxc'' []] = Inr [''pxc'' \<mapsto> []]
   \<and> fst (String_VersionsList original LessThan_ref [''pxc''] [''pxc'' \<mapsto> []]) =
       strings_Join [''-----'', ''pxc'', ''-----''] [CHR 0x0A]"
  using empty_engine_map_bucket [of "engineRecord ''pxc'' []" "\<lparr>Type = ''pxc''\<rparr>"
      "\<lparr>AvailableVersions = Some \<lparr>Engine = Some []\<rparr>\<rparr>" "\<lparr>Engine = Some []\<rparr>" "[]"
      NewVersion_ref Map.empty original LessThan_ref]
  by (simp add: engineRecord_def)

text \<open>
  C10 as stated fails: under the type filter \<open>pxc\<close>, a \<open>psmdb\<close> record with
  specification and status and an empty engine map is skipped; the catalog has no
  bucket and the rendered text is empty.
\<close>

theorem empty_engine_map_filtered:
  "Spec (engineRecord ''psmdb'' []) = Some \<lparr>Type = ''psmdb''\<rparr>
   \<and> Status (engineRecord ''psmdb'' []) = Some \<lparr>AvailableVersions = Some \<lparr>Engine = Some []\<rparr>\<rparr>
   \<and> checkIfSkip ''pxc'' (engineRecord ''psmdb'' [])
   \<and> parseVersions NewVersion_ref ''pxc'' [engineRecord ''psmdb'' []] = Inr Map.empty
   \<and> fst (String_VersionsList original LessThan_ref [] Map.empty) = []"
  by (simp add: engineRecord_def checkIfSkip_def parseVersions_def String_VersionsList_def)

end
